theory Spec2Isabelle
  imports Main "HOL-Library.AList"
begin

section \<open>Type definitions and the registry (internal/types/registry.go)\<close>

text \<open>
  The Go code links \<open>TypeDefinition\<close> values by pointer, and these links may form cycles
  (a struct with a field of type pointer-to-itself).  A pointer is modelled as an address,
  the nil pointer as \<open>None\<close>, and the objects live in a heap, a total function from
  addresses to \<open>TypeDefinition\<close> values.  The fields of a struct are kept by value inside
  their owner: no field object is shared between two types.
\<close>

datatype TypeKind = KindStruct | KindArray | KindMap | KindBasic | KindPointer

type_synonym addr = nat

record FieldDefinition =
  FieldName :: string
  FieldType :: "addr option"
  JSONName :: string
  Omitempty :: bool
  IsPointer :: bool

record TypeDefinition =
  Name :: string
  Kind :: TypeKind
  Fields :: "FieldDefinition list"
  ElementType :: "addr option"
  KeyType :: "addr option"
  ValueType :: "addr option"
  Package :: string
  BasicType :: string
  IsResolved :: bool

type_synonym heap = "addr \<Rightarrow> TypeDefinition"

text \<open>
  Go maps that the code ranges over are association lists: the order of the list is the
  order of one iteration, which Go leaves unspecified, and \<open>map_of\<close> is the lookup.
  The \<open>FileSet\<close> and the \<open>Verbose\<close> flag (positions and logging) are left out.
\<close>

record PackageInfo =
  Types :: "(string \<times> addr) list"
  Imports :: "(string \<times> string) list"

record TypeRegistry =
  Packages :: "(string \<times> PackageInfo) list"
  CurrentPackage :: string

definition NewTypeRegistry :: TypeRegistry where
  "NewTypeRegistry = \<lparr>Packages = [], CurrentPackage = ''''\<rparr>"

definition RegisterPackage :: "TypeRegistry \<Rightarrow> string \<Rightarrow> PackageInfo \<times> TypeRegistry" where
  "RegisterPackage r packagePath =
     (case map_of (Packages r) packagePath of
        None \<Rightarrow>
          (let info = \<lparr>Types = [], Imports = []\<rparr>
           in (info, r\<lparr>Packages := Packages r @ [(packagePath, info)]\<rparr>))
      | Some info \<Rightarrow> (info, r))"

definition SetCurrentPackage :: "TypeRegistry \<Rightarrow> string \<Rightarrow> TypeRegistry" where
  "SetCurrentPackage r packagePath =
     snd (RegisterPackage (r\<lparr>CurrentPackage := packagePath\<rparr>) packagePath)"

definition RegisterImport :: "TypeRegistry \<Rightarrow> string \<Rightarrow> string \<Rightarrow> TypeRegistry" where
  "RegisterImport r alias packagePath =
     (let (pkg, r') = RegisterPackage r (CurrentPackage r)
      in r'\<lparr>Packages := AList.update (CurrentPackage r)
                (pkg\<lparr>Imports := AList.update alias packagePath (Imports pkg)\<rparr>) (Packages r')\<rparr>)"

definition RegisterType :: "TypeRegistry \<Rightarrow> string \<Rightarrow> addr \<Rightarrow> TypeRegistry" where
  "RegisterType r typeName typeDef =
     (let (pkg, r') = RegisterPackage r (CurrentPackage r)
      in r'\<lparr>Packages := AList.update (CurrentPackage r)
                (pkg\<lparr>Types := AList.update typeName typeDef (Types pkg)\<rparr>) (Packages r')\<rparr>)"

text \<open>
  \<open>strings.Contains(name, ".")\<close> and \<open>strings.SplitN(name, ".", 2)\<close>: the name is cut at
  its first dot.
\<close>

definition ContainsDot :: "string \<Rightarrow> bool" where
  "ContainsDot s = (CHR ''.'' \<in> set s)"

definition SplitN2 :: "string \<Rightarrow> string \<times> string" where
  "SplitN2 s = (takeWhile (\<lambda>c. c \<noteq> CHR ''.'') s, drop 1 (dropWhile (\<lambda>c. c \<noteq> CHR ''.'') s))"

definition LookupType :: "TypeRegistry \<Rightarrow> string \<Rightarrow> addr option \<times> TypeRegistry" where
  "LookupType r name =
     (if ContainsDot name then
        (let (pkgAlias, typeName) = SplitN2 name;
             (pkg, r') = RegisterPackage r (CurrentPackage r)
         in (case map_of (Imports pkg) pkgAlias of
               None \<Rightarrow> (None, r')
             | Some pkgPath \<Rightarrow>
                 (case map_of (Packages r') pkgPath of
                    None \<Rightarrow> (None, r')
                  | Some importedPkg \<Rightarrow> (map_of (Types importedPkg) typeName, r'))))
      else
        (let (pkg, r') = RegisterPackage r (CurrentPackage r)
         in (map_of (Types pkg) name, r')))"

definition isBasicType :: "string \<Rightarrow> bool" where
  "isBasicType name = (name \<in> set [''bool'', ''int'', ''int8'', ''int16'', ''int32'', ''int64'',
     ''uint'', ''uint8'', ''uint16'', ''uint32'', ''uint64'', ''uintptr'', ''float32'',
     ''float64'', ''complex64'', ''complex128'', ''string'', ''byte'', ''rune'', ''error''])"

subsection \<open>Struct tags\<close>

text \<open>
  The functions of Go's \<open>strings\<close> package that \<open>extractJSONTag\<close> calls.  \<open>Split\<close> is
  only called with a separator of one character.
\<close>

definition HasPrefix :: "string \<Rightarrow> string \<Rightarrow> bool" where
  "HasPrefix s p = (take (length p) s = p)"

definition TrimPrefix :: "string \<Rightarrow> string \<Rightarrow> string" where
  "TrimPrefix s p = (if HasPrefix s p then drop (length p) s else s)"

definition Trim :: "string \<Rightarrow> string \<Rightarrow> string" where
  "Trim s cutset =
     rev (dropWhile (\<lambda>c. c \<in> set cutset) (rev (dropWhile (\<lambda>c. c \<in> set cutset) s)))"

fun Split :: "string \<Rightarrow> char \<Rightarrow> string list" where
  "Split [] sep = [[]]"
| "Split (c # cs) sep =
     (if c = sep then [] # Split cs sep
      else (case Split cs sep of [] \<Rightarrow> [[c]] | p # ps \<Rightarrow> (c # p) # ps))"

text \<open>The loop that picks the first space-separated component starting with \<open>json:\<close>.\<close>

fun findJSONTag :: "string list \<Rightarrow> string" where
  "findJSONTag [] = ''''"
| "findJSONTag (tag # tags) =
     (if HasPrefix tag ''json:'' then Trim (TrimPrefix tag ''json:'') [CHR 0x22]
      else findJSONTag tags)"

fun hasOmitempty :: "string list \<Rightarrow> bool" where
  "hasOmitempty [] = False"
| "hasOmitempty (part # parts) = (if part = ''omitempty'' then True else hasOmitempty parts)"

text \<open>
  The argument is the field's tag literal with its backquotes (character 0x60), or
  \<open>None\<close> for a field without a tag.  \<open>Split\<close> never returns the empty list, so
  \<open>hd parts\<close> is \<open>parts[0]\<close>.
\<close>

definition extractJSONTag :: "string option \<Rightarrow> string \<times> bool" where
  "extractJSONTag tag =
     (case tag of
        None \<Rightarrow> ('''', False)
      | Some v \<Rightarrow>
          (let tagValue = Trim v [CHR 0x60];
               jsonTag = findJSONTag (Split tagValue CHR '' '')
           in if jsonTag = '''' then ('''', False)
              else (let parts = Split jsonTag CHR '','';
                        jsonName = hd parts;
                        omitempty = hasOmitempty (tl parts)
                    in if jsonName = ''-'' then ('''', True) else (jsonName, omitempty))))"

section \<open>Schema generation (internal/types/schema.go)\<close>

text \<open>
  A schema is built once and never changed afterwards, so schemas are values.  A nil map
  and an empty map, a nil slice and an empty slice are not told apart (Go reads both as
  empty, and both are left out of the JSON output).
\<close>

datatype JSONSchema = JSONSchema
    (sType: string) (sFormat: string) (sDescription: string)
    (sItems: "JSONSchema option")
    (sProperties: "string \<Rightarrow> JSONSchemaProperty option")
    (sRequired: "string list")
    (sAdditionalProperties: "JSONSchemaProperty option")
  and JSONSchemaProperty = JSONSchemaProperty
    (pType: string) (pFormat: string) (pDescription: string)
    (pItems: "JSONSchema option")
    (pProperties: "string \<Rightarrow> JSONSchemaProperty option")
    (pRequired: "string list")
    (pRef: string)
    (pAdditionalProperties: "JSONSchemaProperty option")

type_synonym memo = "string \<Rightarrow> JSONSchema option"

definition schemaKey :: "TypeDefinition \<Rightarrow> string" where
  "schemaKey typeDef = Package typeDef @ ''.'' @ Name typeDef"

definition propertyOf :: "JSONSchema \<Rightarrow> JSONSchemaProperty" where
  "propertyOf s = JSONSchemaProperty (sType s) (sFormat s) (sDescription s) (sItems s)
     (sProperties s) (sRequired s) '''' (sAdditionalProperties s)"

definition wireName :: "FieldDefinition \<Rightarrow> string" where
  "wireName field = (if JSONName field \<noteq> '''' then JSONName field else FieldName field)"

definition generateBasicSchema :: "TypeDefinition \<Rightarrow> JSONSchema" where
  "generateBasicSchema typeDef =
     (let b = BasicType typeDef
      in if b = ''string'' then JSONSchema ''string'' '''' '''' None Map.empty [] None
         else if b \<in> set [''int'', ''int8'', ''int16'', ''int32'', ''int64'',
                           ''uint'', ''uint8'', ''uint16'', ''uint32'', ''uint64'']
           then JSONSchema ''integer'' '''' '''' None Map.empty [] None
         else if b \<in> set [''float32'', ''float64'']
           then JSONSchema ''number'' '''' '''' None Map.empty [] None
         else if b = ''bool'' then JSONSchema ''boolean'' '''' '''' None Map.empty [] None
         else if b = ''time.Time''
           then JSONSchema ''string'' ''date-time'' '''' None Map.empty [] None
         else JSONSchema ''string'' '''' '''' None Map.empty [] None)"

text \<open>
  \<open>GenerateSchema\<close> recurses through the type graph and the graph may be cyclic, so it
  takes fuel, the depth of nested \<open>GenerateSchema\<close> calls it may make; the result \<open>None\<close>
  says that the fuel ran out.  With \<open>Some\<close>, the result is the schema returned (\<open>None\<close>
  for nil) and the generator's \<open>Schemas\<close> map after the call.  The generators for structs,
  arrays and maps call back into \<open>GenerateSchema\<close>: their first argument \<open>gen\<close> is that
  method with the fuel that is left.
\<close>

type_synonym generator = "memo \<Rightarrow> addr option \<Rightarrow> (JSONSchema option \<times> memo) option"

definition emptyObject :: JSONSchema where
  "emptyObject = JSONSchema ''object'' '''' '''' None Map.empty [] None"

definition addProperty :: "JSONSchema \<Rightarrow> FieldDefinition \<Rightarrow> JSONSchema \<Rightarrow> JSONSchema" where
  "addProperty schema field fieldSchema =
     JSONSchema (sType schema) (sFormat schema) (sDescription schema) (sItems schema)
       ((sProperties schema)(wireName field \<mapsto> propertyOf fieldSchema))
       (if Omitempty field then sRequired schema else sRequired schema @ [wireName field])
       (sAdditionalProperties schema)"

text \<open>The loop over \<open>typeDef.Fields\<close> of \<open>generateStructSchema\<close>.\<close>

fun structFields :: "generator \<Rightarrow> memo \<Rightarrow> FieldDefinition list \<Rightarrow> JSONSchema \<Rightarrow> (JSONSchema \<times> memo) option" where
  "structFields gen g [] schema = Some (schema, g)"
| "structFields gen g (field # rest) schema =
     (case FieldType field of
        None \<Rightarrow> structFields gen g rest schema
      | Some t \<Rightarrow>
          (case gen g (Some t) of
             None \<Rightarrow> None
           | Some (None, g') \<Rightarrow> structFields gen g' rest schema
           | Some (Some fieldSchema, g') \<Rightarrow>
               structFields gen g' rest (addProperty schema field fieldSchema)))"

definition generateStructSchema :: "generator \<Rightarrow> heap \<Rightarrow> memo \<Rightarrow> addr \<Rightarrow> (JSONSchema \<times> memo) option" where
  "generateStructSchema gen h g a = structFields gen g (Fields (h a)) emptyObject"

definition generateArraySchema :: "generator \<Rightarrow> heap \<Rightarrow> memo \<Rightarrow> addr \<Rightarrow> (JSONSchema \<times> memo) option" where
  "generateArraySchema gen h g a =
     (case ElementType (h a) of
        None \<Rightarrow> Some (JSONSchema ''array'' '''' '''' None Map.empty [] None, g)
      | Some e \<Rightarrow>
          (case gen g (Some e) of
             None \<Rightarrow> None
           | Some (elemSchema, g') \<Rightarrow>
               Some (JSONSchema ''array'' '''' '''' elemSchema Map.empty [] None, g')))"

definition generateMapSchema :: "generator \<Rightarrow> heap \<Rightarrow> memo \<Rightarrow> addr \<Rightarrow> (JSONSchema \<times> memo) option" where
  "generateMapSchema gen h g a =
     (case ValueType (h a) of
        None \<Rightarrow> Some (emptyObject, g)
      | Some v \<Rightarrow>
          (case gen g (Some v) of
             None \<Rightarrow> None
           | Some (valueSchema, g') \<Rightarrow>
               Some (JSONSchema ''object'' '''' '''' None Map.empty []
                       (map_option propertyOf valueSchema), g')))"

text \<open>The switch on \<open>typeDef.Kind\<close>, and the store into \<open>g.Schemas\<close> that follows it.\<close>

definition schemaByKind :: "generator \<Rightarrow> heap \<Rightarrow> memo \<Rightarrow> addr \<Rightarrow> (JSONSchema option \<times> memo) option" where
  "schemaByKind gen h g a =
     (case Kind (h a) of
        KindStruct \<Rightarrow> map_option (apfst Some) (generateStructSchema gen h g a)
      | KindArray \<Rightarrow> map_option (apfst Some) (generateArraySchema gen h g a)
      | KindMap \<Rightarrow> map_option (apfst Some) (generateMapSchema gen h g a)
      | KindBasic \<Rightarrow> Some (Some (generateBasicSchema (h a)), g)
      | KindPointer \<Rightarrow>
          (case ElementType (h a) of
             None \<Rightarrow> Some (None, g)
           | Some e \<Rightarrow> gen g (Some e)))"

definition storeSchema :: "string \<Rightarrow> JSONSchema option \<times> memo \<Rightarrow> JSONSchema option \<times> memo" where
  "storeSchema key r =
     (case fst r of None \<Rightarrow> r | Some schema \<Rightarrow> (Some schema, (snd r)(key \<mapsto> schema)))"

primrec GenerateSchema :: "nat \<Rightarrow> heap \<Rightarrow> generator" where
  "GenerateSchema 0 h = (\<lambda>g typeDef. None)"
| "GenerateSchema (Suc n) h = (\<lambda>g typeDef.
     (case typeDef of
        None \<Rightarrow> Some (None, g)
      | Some a \<Rightarrow>
          (case g (schemaKey (h a)) of
             Some schema \<Rightarrow> Some (Some schema, g)
           | None \<Rightarrow>
               map_option (storeSchema (schemaKey (h a))) (schemaByKind (GenerateSchema n h) h g a))))"

subsection \<open>Example values\<close>

text \<open>
  The \<open>interface{}\<close> values that \<open>generateExample\<close> builds.  The only floating-point
  number among them is the literal \<open>0.0\<close>.  \<open>generateExample\<close> keeps no table of the
  types it has seen; it takes fuel as \<open>GenerateSchema\<close> does, and returns \<open>Some None\<close>
  for nil.
\<close>

datatype example =
    ExObject "string \<Rightarrow> example option"
  | ExArray "example list"
  | ExString string
  | ExInt int
  | ExFloatZero
  | ExBool bool








section \<open>The package resolver (PackageResolver)\<close>

text \<open>
  \<open>resolveType\<close> changes the heap: it sets \<open>IsResolved\<close>.  It recurses through the type
  graph as well and takes fuel; its first argument in the helpers is \<open>resolveType\<close> with
  the fuel that is left.
\<close>

type_synonym resolver = "heap \<Rightarrow> addr \<Rightarrow> heap option"

fun resolveFieldTypes :: "resolver \<Rightarrow> heap \<Rightarrow> FieldDefinition list \<Rightarrow> heap option" where
  "resolveFieldTypes res h [] = Some h"
| "resolveFieldTypes res h (field # rest) =
     (case FieldType field of
        None \<Rightarrow> resolveFieldTypes res h rest
      | Some t \<Rightarrow>
          (case res h t of
             None \<Rightarrow> None
           | Some h' \<Rightarrow> resolveFieldTypes res h' rest))"

definition resolveOpt :: "resolver \<Rightarrow> heap \<Rightarrow> addr option \<Rightarrow> heap option" where
  "resolveOpt res h t = (case t of None \<Rightarrow> Some h | Some e \<Rightarrow> res h e)"

definition resolveByKind :: "resolver \<Rightarrow> heap \<Rightarrow> addr \<Rightarrow> heap option" where
  "resolveByKind res h a =
     (case Kind (h a) of
        KindStruct \<Rightarrow> resolveFieldTypes res h (Fields (h a))
      | KindArray \<Rightarrow> resolveOpt res h (ElementType (h a))
      | KindMap \<Rightarrow>
          (case resolveOpt res h (KeyType (h a)) of
             None \<Rightarrow> None
           | Some h' \<Rightarrow> resolveOpt res h' (ValueType (h' a)))
      | KindBasic \<Rightarrow> Some h
      | KindPointer \<Rightarrow> resolveOpt res h (ElementType (h a)))"

definition markResolved :: "addr \<Rightarrow> heap \<Rightarrow> heap" where
  "markResolved a h = h(a := (h a)\<lparr>IsResolved := True\<rparr>)"

primrec resolveType :: "nat \<Rightarrow> resolver" where
  "resolveType 0 = (\<lambda>h a. None)"
| "resolveType (Suc n) = (\<lambda>h a.
     if IsResolved (h a) then Some h
     else map_option (markResolved a) (resolveByKind (resolveType n) h a))"

text \<open>
  The state of a resolution: the heap, the next free address (for the functions that
  create type definitions) and the registry.
\<close>

record world =
  Heap :: heap
  NextAddr :: addr
  Reg :: TypeRegistry

definition buildPackageDependencies :: "TypeRegistry \<Rightarrow> (string \<times> string list) list" where
  "buildPackageDependencies r =
     map (\<lambda>(pkgPath, pkgInfo). (pkgPath, filter ContainsDot (map snd (Imports pkgInfo))))
       (Packages r)"

definition dependenciesOf :: "(string \<times> string list) list \<Rightarrow> string \<Rightarrow> string list" where
  "dependenciesOf dependencies pkgPath =
     (case map_of dependencies pkgPath of None \<Rightarrow> [] | Some deps \<Rightarrow> deps)"

fun resolveTypes :: "nat \<Rightarrow> addr list \<Rightarrow> heap \<Rightarrow> heap option" where
  "resolveTypes tf [] h = Some h"
| "resolveTypes tf (typeDef # rest) h =
     (case resolveType tf h typeDef of
        None \<Rightarrow> None
      | Some h' \<Rightarrow> resolveTypes tf rest h')"

definition resolvePackageTypes :: "nat \<Rightarrow> string \<Rightarrow> world \<Rightarrow> world option" where
  "resolvePackageTypes tf pkgPath w =
     (let r = SetCurrentPackage (Reg w) pkgPath
      in case map_of (Packages r) pkgPath of
           None \<Rightarrow> Some (w\<lparr>Reg := r\<rparr>)
         | Some pkgInfo \<Rightarrow>
             map_option (\<lambda>h. w\<lparr>Heap := h, Reg := r\<rparr>)
               (resolveTypes tf (map snd (Types pkgInfo)) (Heap w)))"

text \<open>
  \<open>resolvePackageDependencies\<close> recurses through the import graph, with a fuel of its
  own (\<open>pf\<close>); \<open>tf\<close> is the fuel of each \<open>resolveType\<close> call.  The second component of the
  state is the \<open>resolved\<close> map.
\<close>

type_synonym packageResolver = "string \<Rightarrow> world \<times> string set \<Rightarrow> (world \<times> string set) option"

fun resolveEach :: "packageResolver \<Rightarrow> string list \<Rightarrow> world \<times> string set \<Rightarrow> (world \<times> string set) option" where
  "resolveEach res [] s = Some s"
| "resolveEach res (pkgPath # rest) s =
     (case res pkgPath s of
        None \<Rightarrow> None
      | Some s' \<Rightarrow> resolveEach res rest s')"

primrec resolvePackageDependencies :: "nat \<Rightarrow> nat \<Rightarrow> (string \<times> string list) list \<Rightarrow> packageResolver" where
  "resolvePackageDependencies 0 tf dependencies = (\<lambda>pkgPath s. None)"
| "resolvePackageDependencies (Suc pf) tf dependencies = (\<lambda>pkgPath s.
     if pkgPath \<in> snd s then Some s
     else (case resolveEach (resolvePackageDependencies pf tf dependencies)
                  (dependenciesOf dependencies pkgPath) s of
             None \<Rightarrow> None
           | Some s' \<Rightarrow>
               (case resolvePackageTypes tf pkgPath (fst s') of
                  None \<Rightarrow> None
                | Some w' \<Rightarrow> Some (w', insert pkgPath (snd s')))))"

definition ResolvePackages :: "nat \<Rightarrow> nat \<Rightarrow> world \<Rightarrow> world option" where
  "ResolvePackages pf tf w =
     map_option fst
       (resolveEach (resolvePackageDependencies pf tf (buildPackageDependencies (Reg w)))
          (map fst (Packages (Reg w))) (w, {}))"

section \<open>Syntax trees and \<open>ResolveType\<close>\<close>

text \<open>
  The part of \<open>go/ast\<close> that the code inspects.  \<open>NilExpr\<close> is the nil expression, and
  \<open>OtherExpr\<close> stands for every expression form the code has no case for.  A composite
  literal keeps its type only, a call its function and arguments.
\<close>

datatype token =
    T_DEFINE | T_ASSIGN | T_ADD_ASSIGN | T_AND | T_SUB | T_VAR | T_CONST | T_TYPE
  | T_STRING | T_INT | T_FLOAT | T_CHAR | T_IMAG

datatype expr =
    NilExpr
  | Ident string
  | SelectorExpr expr string
  | CallExpr expr "expr list"
  | UnaryExpr token expr
  | BinaryExpr expr token expr
  | CompositeLit expr
  | BasicLit token string
  | StarExpr expr
  | ArrayType expr
  | MapType expr expr
  | StructType "astField list"
  | OtherExpr
and astField = AstField "string list" expr "string option"

datatype spec = ValueSpec "string list" expr "expr list" | OtherSpec

datatype decl = GenDecl token "spec list" | OtherDecl

text \<open>
  The nodes that \<open>ast.Inspect\<close> hands to its callback, in the order of its depth-first
  walk through a function body.
\<close>

datatype node =
    AssignStmt "expr list" token "expr list"
  | DeclStmt decl
  | ExprNode expr
  | OtherNode

fun isPointerType :: "expr \<Rightarrow> bool" where
  "isPointerType (StarExpr x) = True"
| "isPointerType e = False"

definition alloc :: "TypeDefinition \<Rightarrow> world \<Rightarrow> addr \<times> world" where
  "alloc typeDef w =
     (NextAddr w, w\<lparr>Heap := (Heap w)(NextAddr w := typeDef), NextAddr := Suc (NextAddr w)\<rparr>)"

definition lookupType :: "string \<Rightarrow> world \<Rightarrow> addr option \<times> world" where
  "lookupType name w = (let (t, r) = LookupType (Reg w) name in (t, w\<lparr>Reg := r\<rparr>))"

definition basicTypeDefinition :: "string \<Rightarrow> string \<Rightarrow> TypeDefinition" where
  "basicTypeDefinition name pkg =
     \<lparr>Name = name, Kind = KindBasic, Fields = [], ElementType = None, KeyType = None,
      ValueType = None, Package = pkg, BasicType = name, IsResolved = True\<rparr>"

definition fieldDefinitions :: "string list \<Rightarrow> addr option \<Rightarrow> string option \<Rightarrow> expr \<Rightarrow> FieldDefinition list" where
  "fieldDefinitions names fieldType tag ty =
     map (\<lambda>name. \<lparr>FieldName = name, FieldType = fieldType,
                   JSONName = fst (extractJSONTag tag), Omitempty = snd (extractJSONTag tag),
                   IsPointer = isPointerType ty\<rparr>) names"

definition appendFields :: "addr \<Rightarrow> FieldDefinition list \<Rightarrow> world \<Rightarrow> world" where
  "appendFields a fs w =
     w\<lparr>Heap := (Heap w)(a := (Heap w a)\<lparr>Fields := Fields (Heap w a) @ fs\<rparr>)\<rparr>"

definition clearResolved :: "addr \<Rightarrow> world \<Rightarrow> world" where
  "clearResolved a w = w\<lparr>Heap := (Heap w)(a := (Heap w a)\<lparr>IsResolved := False\<rparr>)\<rparr>"

fun ResolveType :: "expr \<Rightarrow> world \<Rightarrow> addr option \<times> world"
  and resolveStructFields :: "astField list \<Rightarrow> addr \<Rightarrow> world \<Rightarrow> world"
where
  "ResolveType NilExpr w = (None, w)"
| "ResolveType (Ident name) w =
     (if isBasicType name
      then apfst Some (alloc (basicTypeDefinition name (CurrentPackage (Reg w))) w)
      else lookupType name w)"
| "ResolveType (SelectorExpr x sel) w =
     (case x of Ident xn \<Rightarrow> lookupType (xn @ ''.'' @ sel) w | _ \<Rightarrow> (None, w))"
| "ResolveType (ArrayType elt) w =
     (case ResolveType elt w of
        (None, w1) \<Rightarrow> (None, w1)
      | (Some elemType, w1) \<Rightarrow>
          apfst Some (alloc
            \<lparr>Name = ''[]'' @ Name (Heap w1 elemType), Kind = KindArray, Fields = [],
             ElementType = Some elemType, KeyType = None, ValueType = None,
             Package = CurrentPackage (Reg w1), BasicType = '''',
             IsResolved = IsResolved (Heap w1 elemType)\<rparr> w1))"
| "ResolveType (MapType k v) w =
     (case ResolveType k w of
        (keyType, w1) \<Rightarrow>
          (case ResolveType v w1 of
             (valueType, w2) \<Rightarrow>
               (case (keyType, valueType) of
                  (Some kt, Some vt) \<Rightarrow>
                    apfst Some (alloc
                      \<lparr>Name = ''map['' @ Name (Heap w2 kt) @ '']'' @ Name (Heap w2 vt),
                       Kind = KindMap, Fields = [], ElementType = None,
                       KeyType = Some kt, ValueType = Some vt,
                       Package = CurrentPackage (Reg w2), BasicType = '''',
                       IsResolved = (IsResolved (Heap w2 kt) \<and> IsResolved (Heap w2 vt))\<rparr> w2)
                | _ \<Rightarrow> (None, w2))))"
| "ResolveType (StarExpr x) w =
     (case ResolveType x w of
        (None, w1) \<Rightarrow> (None, w1)
      | (Some elemType, w1) \<Rightarrow>
          apfst Some (alloc
            \<lparr>Name = ''*'' @ Name (Heap w1 elemType), Kind = KindPointer, Fields = [],
             ElementType = Some elemType, KeyType = None, ValueType = None,
             Package = CurrentPackage (Reg w1), BasicType = '''',
             IsResolved = IsResolved (Heap w1 elemType)\<rparr> w1))"
| "ResolveType (StructType fs) w =
     (case alloc \<lparr>Name = ''anonymous'', Kind = KindStruct, Fields = [], ElementType = None,
                  KeyType = None, ValueType = None, Package = CurrentPackage (Reg w),
                  BasicType = '''', IsResolved = True\<rparr> w of
        (structDef, w1) \<Rightarrow> (Some structDef, resolveStructFields fs structDef w1))"
| "ResolveType (CallExpr f args) w = (None, w)"
| "ResolveType (UnaryExpr op x) w = (None, w)"
| "ResolveType (BinaryExpr x op y) w = (None, w)"
| "ResolveType (CompositeLit ty) w = (None, w)"
| "ResolveType (BasicLit kind v) w = (None, w)"
| "ResolveType OtherExpr w = (None, w)"
| "resolveStructFields [] structDef w = w"
| "resolveStructFields (AstField names ty tag # rest) structDef w =
     (case ResolveType ty w of
        (None, w1) \<Rightarrow> resolveStructFields rest structDef (clearResolved structDef w1)
      | (Some fieldType, w1) \<Rightarrow>
          resolveStructFields rest structDef
            (appendFields structDef (fieldDefinitions names (Some fieldType) tag ty) w1))"

subsection \<open>Collecting a struct declaration (\<open>PackageResolver.processTypeDeclaration\<close>)\<close>

text \<open>
  The type is registered before its fields are resolved, so a field that names the type
  itself resolves to the type's own address.  \<open>ResolveType\<close> is called once for each
  name of a field.
\<close>

fun declFieldNames :: "string list \<Rightarrow> expr \<Rightarrow> string option \<Rightarrow> addr \<Rightarrow> world \<Rightarrow> world" where
  "declFieldNames [] ty tag typeDef w = w"
| "declFieldNames (name # names) ty tag typeDef w =
     (case ResolveType ty w of
        (fieldType, w1) \<Rightarrow>
          declFieldNames names ty tag typeDef
            (appendFields typeDef (fieldDefinitions [name] fieldType tag ty) w1))"

fun declFields :: "astField list \<Rightarrow> addr \<Rightarrow> world \<Rightarrow> world" where
  "declFields [] typeDef w = w"
| "declFields (AstField names ty tag # rest) typeDef w =
     declFields rest typeDef (declFieldNames names ty tag typeDef w)"

definition processTypeDeclaration :: "string \<Rightarrow> expr \<Rightarrow> string \<Rightarrow> world \<Rightarrow> world" where
  "processTypeDeclaration typeName typeExpr packagePath w =
     (case typeExpr of
        StructType fs \<Rightarrow>
          (case alloc \<lparr>Name = typeName, Kind = KindStruct, Fields = [], ElementType = None,
                       KeyType = None, ValueType = None, Package = packagePath,
                       BasicType = '''', IsResolved = False\<rparr> w of
             (typeDef, w1) \<Rightarrow>
               declFields fs typeDef (w1\<lparr>Reg := RegisterType (Reg w1) typeName typeDef\<rparr>))
      | _ \<Rightarrow> w)"

section \<open>The variable tracker and the response analyzer\<close>

text \<open>
  Every writer of \<open>Variables\<close> skips a nil type, so the type of a tracked variable is an
  address.  \<open>FunctionMap\<close> holds whatever pointer was registered, nil included.
\<close>

record VariableInfo =
  VarName :: string
  VarType :: addr
  VarIsPointer :: bool

record VariableTracker =
  W :: world
  Variables :: "string \<Rightarrow> VariableInfo option"
  FunctionMap :: "string \<Rightarrow> addr option option"

datatype panic = IndexOutOfRange

definition NewVariableTracker :: "world \<Rightarrow> VariableTracker" where
  "NewVariableTracker w = \<lparr>W = w, Variables = Map.empty, FunctionMap = Map.empty\<rparr>"

definition inWorld :: "(world \<Rightarrow> addr option \<times> world) \<Rightarrow> VariableTracker \<Rightarrow> addr option \<times> VariableTracker" where
  "inWorld f t = (case f (W t) of (r, w) \<Rightarrow> (r, t\<lparr>W := w\<rparr>))"

definition newType :: "TypeDefinition \<Rightarrow> VariableTracker \<Rightarrow> addr option \<times> VariableTracker" where
  "newType typeDef t = inWorld (\<lambda>w. apfst Some (alloc typeDef w)) t"

text \<open>The argument is \<open>call.Fun\<close>.\<close>

fun resolveFunctionCallType :: "expr \<Rightarrow> VariableTracker \<Rightarrow> addr option \<times> VariableTracker" where
  "resolveFunctionCallType (Ident name) t =
     (case FunctionMap t name of
        Some returnType \<Rightarrow> (returnType, t)
      | None \<Rightarrow> newType (basicTypeDefinition ''any'' '''') t)"
| "resolveFunctionCallType (SelectorExpr (Ident x) sel) t =
     (if Variables t x \<noteq> None then newType (basicTypeDefinition ''any'' '''') t
      else (case FunctionMap t (x @ ''.'' @ sel) of
              Some returnType \<Rightarrow> (returnType, t)
            | None \<Rightarrow> newType (basicTypeDefinition ''any'' '''') t))"
| "resolveFunctionCallType f t = newType (basicTypeDefinition ''any'' '''') t"

text \<open>The loop that looks a field up by its declared name.\<close>

fun findField :: "FieldDefinition list \<Rightarrow> string \<Rightarrow> addr option" where
  "findField [] sel = None"
| "findField (field # rest) sel =
     (if FieldName field = sel then FieldType field else findField rest sel)"

fun resolveExpressionType :: "expr \<Rightarrow> VariableTracker \<Rightarrow> addr option \<times> VariableTracker" where
  "resolveExpressionType (Ident name) t =
     (case Variables t name of
        Some varInfo \<Rightarrow> (Some (VarType varInfo), t)
      | None \<Rightarrow> inWorld (lookupType name) t)"
| "resolveExpressionType (SelectorExpr (Ident x) sel) t =
     (case inWorld (lookupType (x @ ''.'' @ sel)) t of
        (Some typeDef, t1) \<Rightarrow> (Some typeDef, t1)
      | (None, t1) \<Rightarrow>
          (case Variables t1 x of
             None \<Rightarrow> (None, t1)
           | Some varInfo \<Rightarrow>
               if Kind (Heap (W t1) (VarType varInfo)) = KindStruct
               then (findField (Fields (Heap (W t1) (VarType varInfo))) sel, t1)
               else (None, t1)))"
| "resolveExpressionType (SelectorExpr x sel) t = (None, t)"
| "resolveExpressionType (CallExpr f args) t = resolveFunctionCallType f t"
| "resolveExpressionType (UnaryExpr op x) t =
     (if op = T_AND then
        (case resolveExpressionType x t of
           (None, t1) \<Rightarrow> (None, t1)
         | (Some innerType, t1) \<Rightarrow>
             newType
               \<lparr>Name = ''*'' @ Name (Heap (W t1) innerType), Kind = KindPointer, Fields = [],
                ElementType = Some innerType, KeyType = None, ValueType = None,
                Package = Package (Heap (W t1) innerType), BasicType = '''',
                IsResolved = IsResolved (Heap (W t1) innerType)\<rparr> t1)
      else (None, t))"
| "resolveExpressionType (CompositeLit ty) t = inWorld (ResolveType ty) t"
| "resolveExpressionType (BasicLit kind v) t =
     (if kind = T_STRING then newType (basicTypeDefinition ''string'' '''') t
      else if kind = T_INT then newType (basicTypeDefinition ''int'' '''') t
      else if kind = T_FLOAT then newType (basicTypeDefinition ''float64'' '''') t
      else if kind = T_CHAR then newType (basicTypeDefinition ''rune'' '''') t
      else (None, t))"
| "resolveExpressionType e t = (None, t)"

definition setVariable :: "string \<Rightarrow> addr \<Rightarrow> bool \<Rightarrow> VariableTracker \<Rightarrow> VariableTracker" where
  "setVariable name ty isPtr t =
     t\<lparr>Variables := (Variables t)(name \<mapsto> \<lparr>VarName = name, VarType = ty, VarIsPointer = isPtr\<rparr>)\<rparr>"

text \<open>
  The loop of \<open>trackAssignment\<close> over \<open>stmt.Lhs\<close>, from index \<open>i\<close> on.  The read
  \<open>stmt.Rhs[i]\<close> in the construction of the \<open>VariableInfo\<close> panics when \<open>i\<close> is not an
  index of \<open>stmt.Rhs\<close>.
\<close>

fun trackLhs :: "nat \<Rightarrow> expr list \<Rightarrow> expr list \<Rightarrow> VariableTracker \<Rightarrow> panic + VariableTracker" where
  "trackLhs i [] rhs t = Inr t"
| "trackLhs i (Ident name # rest) rhs t =
     (case (if i < length rhs then resolveExpressionType (rhs ! i) t
            else if length rhs = 1 then resolveExpressionType (rhs ! 0) t
            else (None, t)) of
        (None, t1) \<Rightarrow> trackLhs (Suc i) rest rhs t1
      | (Some rhsType, t1) \<Rightarrow>
          if i < length rhs
          then trackLhs (Suc i) rest rhs (setVariable name rhsType (isPointerType (rhs ! i)) t1)
          else Inl IndexOutOfRange)"
| "trackLhs i (lhs # rest) rhs t = trackLhs (Suc i) rest rhs t"

definition trackAssignment :: "expr list \<Rightarrow> token \<Rightarrow> expr list \<Rightarrow> VariableTracker \<Rightarrow> panic + VariableTracker" where
  "trackAssignment lhs tok rhs t =
     (if tok \<noteq> T_DEFINE \<and> tok \<noteq> T_ASSIGN then Inr t else trackLhs 0 lhs rhs t)"

fun setVariables :: "string list \<Rightarrow> addr \<Rightarrow> bool \<Rightarrow> VariableTracker \<Rightarrow> VariableTracker" where
  "setVariables [] ty isPtr t = t"
| "setVariables (name # names) ty isPtr t = setVariables names ty isPtr (setVariable name ty isPtr t)"

fun trackSpecs :: "spec list \<Rightarrow> VariableTracker \<Rightarrow> VariableTracker" where
  "trackSpecs [] t = t"
| "trackSpecs (ValueSpec names ty vals # rest) t =
     (case (if ty \<noteq> NilExpr then inWorld (ResolveType ty) t
            else if vals \<noteq> [] then resolveExpressionType (hd vals) t
            else (None, t)) of
        (None, t1) \<Rightarrow> trackSpecs rest t1
      | (Some varType, t1) \<Rightarrow> trackSpecs rest (setVariables names varType (isPointerType ty) t1))"
| "trackSpecs (OtherSpec # rest) t = trackSpecs rest t"

fun trackDeclaration :: "decl \<Rightarrow> VariableTracker \<Rightarrow> VariableTracker" where
  "trackDeclaration (GenDecl tok specs) t = (if tok \<noteq> T_VAR then t else trackSpecs specs t)"
| "trackDeclaration OtherDecl t = t"

fun trackParams :: "astField list \<Rightarrow> VariableTracker \<Rightarrow> VariableTracker" where
  "trackParams [] t = t"
| "trackParams (AstField names ty tag # rest) t =
     (case inWorld (ResolveType ty) t of
        (None, t1) \<Rightarrow> trackParams rest t1
      | (Some paramType, t1) \<Rightarrow> trackParams rest (setVariables names paramType (isPointerType ty) t1))"

fun trackBody :: "node list \<Rightarrow> VariableTracker \<Rightarrow> panic + VariableTracker" where
  "trackBody [] t = Inr t"
| "trackBody (AssignStmt lhs tok rhs # rest) t =
     (case trackAssignment lhs tok rhs t of
        Inl p \<Rightarrow> Inl p
      | Inr t1 \<Rightarrow> trackBody rest t1)"
| "trackBody (DeclStmt d # rest) t = trackBody rest (trackDeclaration d t)"
| "trackBody (n # rest) t = trackBody rest t"

text \<open>
  \<open>TrackFunction\<close>: \<open>params\<close> is \<open>funcDecl.Type.Params.List\<close> and \<open>body\<close> the nodes of
  \<open>funcDecl.Body\<close> (both empty when the Go value is nil).
\<close>

definition TrackFunction :: "astField list \<Rightarrow> node list \<Rightarrow> VariableTracker \<Rightarrow> panic + VariableTracker" where
  "TrackFunction params body t = trackBody body (trackParams params (t\<lparr>Variables := Map.empty\<rparr>))"

definition GetVariableType :: "VariableTracker \<Rightarrow> string \<Rightarrow> addr option" where
  "GetVariableType t name = map_option VarType (Variables t name)"

fun resolveResponseType :: "expr \<Rightarrow> VariableTracker \<Rightarrow> addr option \<times> VariableTracker" where
  "resolveResponseType (Ident name) t = (GetVariableType t name, t)"
| "resolveResponseType (SelectorExpr (Ident x) sel) t =
     (case GetVariableType t x of
        None \<Rightarrow> (None, t)
      | Some varType \<Rightarrow>
          if Kind (Heap (W t) varType) = KindStruct
          then (findField (Fields (Heap (W t) varType)) sel, t)
          else (None, t))"
| "resolveResponseType (SelectorExpr x sel) t = (None, t)"
| "resolveResponseType (CallExpr f args) t = resolveFunctionCallType f t"
| "resolveResponseType (CompositeLit ty) t = inWorld (ResolveType ty) t"
| "resolveResponseType (UnaryExpr op x) t =
     (if op = T_AND then resolveResponseType x t else (None, t))"
| "resolveResponseType e t = (None, t)"

section \<open>Concrete inputs\<close>

text \<open>
  A world with nothing in it but the current package, and the world after collecting
  \<^verbatim>\<open>type Node struct { Next *Node }\<close> in package \<open>app\<close>.
\<close>

definition zeroType :: TypeDefinition where
  "zeroType = \<lparr>Name = '''', Kind = KindStruct, Fields = [], ElementType = None, KeyType = None,
      ValueType = None, Package = '''', BasicType = '''', IsResolved = False\<rparr>"

definition emptyWorld :: "string \<Rightarrow> world" where
  "emptyWorld pkg =
     \<lparr>Heap = (\<lambda>a. zeroType), NextAddr = 0, Reg = SetCurrentPackage NewTypeRegistry pkg\<rparr>"

definition nodeWorld :: world where
  "nodeWorld = processTypeDeclaration ''Node''
     (StructType [AstField [''Next''] (StarExpr (Ident ''Node'')) None]) ''app'' (emptyWorld ''app'')"

text \<open>
  What a variable's scope entry and what the response analyzer report, as the name of the
  type (\<open>None\<close> for no entry, no type, or a panic); and the nodes that can write the
  entry of a variable \<open>x\<close>.
\<close>

fun specDeclares :: "string \<Rightarrow> spec \<Rightarrow> bool" where
  "specDeclares x (ValueSpec names ty vals) = (x \<in> set names)"
| "specDeclares x OtherSpec = False"

fun assignsTo :: "string \<Rightarrow> node \<Rightarrow> bool" where
  "assignsTo x (AssignStmt lhs tok rhs) = (Ident x \<in> set lhs)"
| "assignsTo x (DeclStmt (GenDecl tok specs)) = list_ex (specDeclares x) specs"
| "assignsTo x n = False"

definition reportedName :: "panic + VariableTracker \<Rightarrow> expr \<Rightarrow> string option" where
  "reportedName r e =
     (case r of
        Inl p \<Rightarrow> None
      | Inr t \<Rightarrow>
          (case resolveResponseType e t of
             (None, t') \<Rightarrow> None
           | (Some a, t') \<Rightarrow> Some (Name (Heap (W t') a))))"

definition scopeEntryName :: "panic + VariableTracker \<Rightarrow> string \<Rightarrow> string option" where
  "scopeEntryName r x =
     (case r of
        Inl p \<Rightarrow> None
      | Inr t \<Rightarrow> map_option (\<lambda>v. Name (Heap (W t) (VarType v))) (Variables t x))"

text \<open>
  The body of
  \<^verbatim>\<open>var x interface{}; x = "a"; x = 1; c.JSON(200, x); x = 2.5\<close>.
\<close>

definition interfaceBody :: "node list" where
  "interfaceBody =
     [DeclStmt (GenDecl T_VAR [ValueSpec [''x''] OtherExpr []]),
      AssignStmt [Ident ''x''] T_ASSIGN [BasicLit T_STRING ''a''],
      AssignStmt [Ident ''x''] T_ASSIGN [BasicLit T_INT ''1''],
      ExprNode (CallExpr (SelectorExpr (Ident ''c'') ''JSON'') [BasicLit T_INT ''200'', Ident ''x'']),
      AssignStmt [Ident ''x''] T_ASSIGN [BasicLit T_FLOAT ''2.5'']]"

text \<open>
  The type definitions that a type refers to, as \<open>resolveType\<close> follows them (schema
  generation follows the same references but for the key type of a map).  A type is
  finite within depth \<open>d\<close> when every chain of references from it ends in fewer than
  \<open>d\<close> steps: the type graph below it has no cycle.
\<close>

definition optList :: "'a option \<Rightarrow> 'a list" where
  "optList x = (case x of None \<Rightarrow> [] | Some y \<Rightarrow> [y])"

definition children :: "TypeDefinition \<Rightarrow> addr list" where
  "children typeDef =
     (case Kind typeDef of
        KindStruct \<Rightarrow> concat (map (\<lambda>field. optList (FieldType field)) (Fields typeDef))
      | KindArray \<Rightarrow> optList (ElementType typeDef)
      | KindMap \<Rightarrow> optList (KeyType typeDef) @ optList (ValueType typeDef)
      | KindBasic \<Rightarrow> []
      | KindPointer \<Rightarrow> optList (ElementType typeDef))"

fun finiteType :: "nat \<Rightarrow> heap \<Rightarrow> addr \<Rightarrow> bool" where
  "finiteType 0 h a = False"
| "finiteType (Suc d) h a = list_all (finiteType d h) (children (h a))"



text \<open>
  The tag literal \<^verbatim>\<open>json:"body"\<close> between backquotes, and the worlds after collecting
  \<^verbatim>\<open>type User struct { ID int; Name string; Bio string }\<close> with the tags \<open>id\<close>, \<open>name\<close>
  and \<open>bio,omitempty\<close>, and
  \<^verbatim>\<open>type Account struct { Name string; Secret string }\<close> with the tags \<open>name\<close> and \<open>-\<close>.
\<close>

definition jsonTag :: "string \<Rightarrow> string" where
  "jsonTag body = [CHR 0x60] @ ''json:'' @ [CHR 0x22] @ body @ [CHR 0x22, CHR 0x60]"

definition userWorld :: world where
  "userWorld = processTypeDeclaration ''User''
     (StructType [AstField [''ID''] (Ident ''int'') (Some (jsonTag ''id'')),
                  AstField [''Name''] (Ident ''string'') (Some (jsonTag ''name'')),
                  AstField [''Bio''] (Ident ''string'') (Some (jsonTag ''bio,omitempty''))])
     ''app'' (emptyWorld ''app'')"


text \<open>
  Readers of a \<open>GenerateSchema\<close> result: the required list, and the type of a property.
\<close>

definition requiredOf :: "(JSONSchema option \<times> memo) option \<Rightarrow> string list" where
  "requiredOf r = (case r of Some (Some s, g) \<Rightarrow> sRequired s | _ \<Rightarrow> [])"

definition propertiesOf :: "(JSONSchema option \<times> memo) option \<Rightarrow> string \<Rightarrow> string option" where
  "propertiesOf r name =
     (case r of Some (Some s, g) \<Rightarrow> map_option pType (sProperties s name) | _ \<Rightarrow> None)"

text \<open>
  Package \<open>example.com/models\<close> declares \<^verbatim>\<open>type User struct { Name string }\<close>; package
  \<open>app\<close> imports it as \<open>models\<close> and declares \<^verbatim>\<open>type User struct { ID int }\<close> and
  \<^verbatim>\<open>type Holder struct { A *User; B *models.User }\<close>.
\<close>

definition modelsWorld :: world where
  "modelsWorld = processTypeDeclaration ''User''
     (StructType [AstField [''Name''] (Ident ''string'') None])
     ''example.com/models'' (emptyWorld ''example.com/models'')"

definition appWorld :: world where
  "appWorld = processTypeDeclaration ''User''
     (StructType [AstField [''ID''] (Ident ''int'') None]) ''app''
     (modelsWorld\<lparr>Reg := RegisterImport (SetCurrentPackage (Reg modelsWorld) ''app'')
                            ''models'' ''example.com/models''\<rparr>)"

definition holderWorld :: world where
  "holderWorld = processTypeDeclaration ''Holder''
     (StructType [AstField [''A''] (StarExpr (Ident ''User'')) None,
                  AstField [''B''] (StarExpr (SelectorExpr (Ident ''models'') ''User'')) None])
     ''app'' appWorld"

text \<open>
  A further \<open>GenerateSchema\<close> call on the generator that an earlier call left behind.
\<close>

definition thenGenerateSchema :: "nat \<Rightarrow> heap \<Rightarrow> addr \<Rightarrow> (JSONSchema option \<times> memo) option \<Rightarrow> (JSONSchema option \<times> memo) option" where
  "thenGenerateSchema n h a r =
     (case r of None \<Rightarrow> None | Some (s, g) \<Rightarrow> GenerateSchema n h g (Some a))"


text \<open>
  \<open>marks h h'\<close>: the heap \<open>h'\<close> is \<open>h\<close> with \<open>IsResolved\<close> set on some type definitions,
  and nothing else changed.
\<close>

definition marks :: "heap \<Rightarrow> heap \<Rightarrow> bool" where
  "marks h h' = (\<forall>b. h' b = h b \<or> h' b = (h b)\<lparr>IsResolved := True\<rparr>)"

text \<open>
  \<open>growsBy r r' X\<close>: the registry \<open>r'\<close> has the packages of \<open>r\<close>, unchanged and in the same
  order, followed by empty packages whose paths are in \<open>X\<close> (the packages that
  \<open>SetCurrentPackage\<close> registers for an import path no file was collected for).
\<close>

definition growsBy :: "TypeRegistry \<Rightarrow> TypeRegistry \<Rightarrow> string set \<Rightarrow> bool" where
  "growsBy r r' X =
     (\<exists>ext. Packages r' = Packages r @ ext
        \<and> (\<forall>e \<in> set ext. snd e = \<lparr>Types = [], Imports = []\<rparr> \<and> fst e \<in> X))"

text \<open>
  \<open>resolvedIn w R\<close>: every package of \<open>R\<close> is registered and every type definition of
  its type table has \<open>IsResolved\<close> set.
\<close>

definition resolvedIn :: "world \<Rightarrow> string set \<Rightarrow> bool" where
  "resolvedIn w R =
     (\<forall>p \<in> R. \<exists>i. map_of (Packages (Reg w)) p = Some i
        \<and> (\<forall>a \<in> set (map snd (Types i)). IsResolved (Heap w a)))"

text \<open>
  What one call of \<open>resolvePackageDependencies\<close> does to the state (the world and the
  \<open>resolved\<close> map).
\<close>

definition advances :: "world \<times> string set \<Rightarrow> world \<times> string set \<Rightarrow> bool" where
  "advances s s' =
     (growsBy (Reg (fst s)) (Reg (fst s')) (snd s') \<and> marks (Heap (fst s)) (Heap (fst s'))
      \<and> NextAddr (fst s') = NextAddr (fst s) \<and> snd s \<subseteq> snd s'
      \<and> (resolvedIn (fst s) (snd s) \<longrightarrow> resolvedIn (fst s') (snd s')))"

text \<open>
  A package \<open>app\<close> with \<open>type Event struct { At time.Time }\<close>, where no package \<open>time\<close>
  was collected: \<open>ResolveType\<close> finds no type for the field.
\<close>

definition eventWorld :: world where
  "eventWorld = processTypeDeclaration ''Event''
     (StructType [AstField [''At''] (SelectorExpr (Ident ''time'') ''Time'') None])
     ''app'' (emptyWorld ''app'')"

text \<open>
  The field types and the \<open>IsResolved\<close> flag of the type definition at an address, after a
  run of the resolver.
\<close>

definition fieldTypesAfter :: "world option \<Rightarrow> addr \<Rightarrow> addr option list" where
  "fieldTypesAfter r a =
     (case r of None \<Rightarrow> [] | Some w \<Rightarrow> map FieldType (Fields (Heap w a)))"

definition resolvedAfter :: "world option \<Rightarrow> addr \<Rightarrow> bool" where
  "resolvedAfter r a = (case r of None \<Rightarrow> False | Some w \<Rightarrow> IsResolved (Heap w a))"

text \<open>
  \<open>below r r'\<close>: every package of \<open>r\<close> is a package of \<open>r'\<close>, with the same type table and
  imports.
\<close>

definition below :: "TypeRegistry \<Rightarrow> TypeRegistry \<Rightarrow> bool" where
  "below r r' = (\<forall>p i. map_of (Packages r) p = Some i \<longrightarrow> map_of (Packages r') p = Some i)"

text \<open>
  Every type definition in the type table of a registered package has \<open>IsResolved\<close> set.
\<close>

definition allResolved :: "world \<Rightarrow> bool" where
  "allResolved w = (\<forall>p i. map_of (Packages (Reg w)) p = Some i
     \<longrightarrow> (\<forall>a \<in> set (map snd (Types i)). IsResolved (Heap w a)))"

text \<open>
  The relation between a state \<open>wa\<close> of a run of the resolver that ends in \<open>w1\<close> and the
  state \<open>wb\<close> of the run that starts again from \<open>w1\<close>, after the same calls: the second run
  has the heap and the packages of \<open>w1\<close> all along, and the current package of the two runs
  is the same once a package has been resolved (\<open>c0\<close> is the current package the first run
  started with).
\<close>

definition follows :: "world \<Rightarrow> string \<Rightarrow> world \<Rightarrow> world \<Rightarrow> bool" where
  "follows w1 c0 wa wb = (Heap wb = Heap w1 \<and> NextAddr wb = NextAddr w1
     \<and> Packages (Reg wb) = Packages (Reg w1)
     \<and> (CurrentPackage (Reg wb) = CurrentPackage (Reg wa)
        \<or> (CurrentPackage (Reg wb) = CurrentPackage (Reg w1) \<and> CurrentPackage (Reg wa) = c0)))"

text \<open>
  The required list of the property that a generated object schema has under a name.
\<close>

definition requiredOfProperty :: "(JSONSchema option \<times> memo) option \<Rightarrow> string \<Rightarrow> string list option" where
  "requiredOfProperty r name =
     (case r of Some (Some s, g) \<Rightarrow> map_option pRequired (sProperties s name) | _ \<Rightarrow> None)"

section \<open>Properties of the registry\<close>

lemma RegisterPackage_lookup:
  "map_of (Packages (snd (RegisterPackage r p))) q =
     (if q = p \<and> map_of (Packages r) p = None then Some \<lparr>Types = [], Imports = []\<rparr>
      else map_of (Packages r) q)"
  by (auto simp: RegisterPackage_def Let_def map_add_def split: option.splits)

text \<open>
  C9. \<open>RegisterPackage\<close> on a package that is already registered returns the existing
  \<open>PackageInfo\<close> and leaves the registry as it is; calling it a second time gives what the
  first call gave; and \<open>SetCurrentPackage\<close> keeps the \<open>PackageInfo\<close> (types and import
  aliases) of every package that was registered before.
\<close>

theorem RegisterPackage_idempotent:
  "(map_of (Packages r) p = Some info \<longrightarrow> RegisterPackage r p = (info, r))
   \<and> RegisterPackage (snd (RegisterPackage r p)) p = RegisterPackage r p
   \<and> (map_of (Packages r) q = Some info' \<longrightarrow>
        map_of (Packages (SetCurrentPackage r p)) q = Some info')"
proof (intro conjI impI)
  assume "map_of (Packages r) p = Some info"
  then show "RegisterPackage r p = (info, r)" by (simp add: RegisterPackage_def)
next
  show "RegisterPackage (snd (RegisterPackage r p)) p = RegisterPackage r p"
  proof (cases "map_of (Packages r) p")
    case None
    then show ?thesis
      by (simp add: RegisterPackage_def Let_def map_add_def)
  next
    case (Some i)
    then show ?thesis by (simp add: RegisterPackage_def)
  qed
next
  assume "map_of (Packages r) q = Some info'"
  then show "map_of (Packages (SetCurrentPackage r p)) q = Some info'"
    by (auto simp: SetCurrentPackage_def RegisterPackage_lookup)
qed

theorem RegisterPackage_idempotent_witness:
  "RegisterPackage
     \<lparr>Packages = [(''app'', \<lparr>Types = [(''User'', 0)], Imports = [(''models'', ''example.com/models'')]\<rparr>)],
      CurrentPackage = ''''\<rparr> ''app''
   = (\<lparr>Types = [(''User'', 0)], Imports = [(''models'', ''example.com/models'')]\<rparr>,
      \<lparr>Packages = [(''app'', \<lparr>Types = [(''User'', 0)], Imports = [(''models'', ''example.com/models'')]\<rparr>)],
       CurrentPackage = ''''\<rparr>)
   \<and> map_of (Packages (SetCurrentPackage
        \<lparr>Packages = [(''app'', \<lparr>Types = [(''User'', 0)], Imports = [(''models'', ''example.com/models'')]\<rparr>)],
         CurrentPackage = ''''\<rparr> ''other'')) ''app''
     = Some \<lparr>Types = [(''User'', 0)], Imports = [(''models'', ''example.com/models'')]\<rparr>"
  using RegisterPackage_idempotent
    [of "\<lparr>Packages = [(''app'', \<lparr>Types = [(''User'', 0)], Imports = [(''models'', ''example.com/models'')]\<rparr>)],
          CurrentPackage = ''''\<rparr>" "''app''"
        "\<lparr>Types = [(''User'', 0)], Imports = [(''models'', ''example.com/models'')]\<rparr>"]
    RegisterPackage_idempotent
    [of "\<lparr>Packages = [(''app'', \<lparr>Types = [(''User'', 0)], Imports = [(''models'', ''example.com/models'')]\<rparr>)],
          CurrentPackage = ''''\<rparr>" "''other''" _ "''app''"
        "\<lparr>Types = [(''User'', 0)], Imports = [(''models'', ''example.com/models'')]\<rparr>"]
  by simp

section \<open>Properties of schema generation\<close>

lemma nodeWorld_heap:
  "Heap nodeWorld 0 = \<lparr>Name = ''Node'', Kind = KindStruct,
      Fields = [\<lparr>FieldName = ''Next'', FieldType = Some 1, JSONName = '''', Omitempty = False,
                 IsPointer = True\<rparr>],
      ElementType = None, KeyType = None, ValueType = None, Package = ''app'', BasicType = '''',
      IsResolved = False\<rparr>"
  "Heap nodeWorld (Suc 0) = \<lparr>Name = ''*Node'', Kind = KindPointer, Fields = [],
      ElementType = Some 0, KeyType = None, ValueType = None, Package = ''app'', BasicType = '''',
      IsResolved = False\<rparr>"
  by (simp_all add: nodeWorld_def emptyWorld_def processTypeDeclaration_def alloc_def
      RegisterType_def RegisterPackage_def SetCurrentPackage_def NewTypeRegistry_def
      lookupType_def LookupType_def ContainsDot_def isBasicType_def appendFields_def
      fieldDefinitions_def extractJSONTag_def Let_def)

lemma GenerateSchema_node_diverges:
  "GenerateSchema n (Heap nodeWorld) Map.empty (Some 0) = None \<and>
   GenerateSchema n (Heap nodeWorld) Map.empty (Some (Suc 0)) = None"
proof (induction n)
  case 0
  show ?case by simp
next
  case (Suc n)
  then show ?case
    by (simp add: nodeWorld_heap schemaByKind_def generateStructSchema_def)
qed

text \<open>
  C1 (the code does not do what the claim says).  For the self-referential type
  \<^verbatim>\<open>type Node struct { Next *Node }\<close>, as \<open>processTypeDeclaration\<close> registers it,
  \<open>GenerateSchema\<close> on a fresh generator returns with no amount of fuel: the schema of a
  type is stored in \<open>Schemas\<close> only after the schemas of its fields are built, so the
  nested call for \<open>Node\<close> finds no entry and recurses again.
\<close>

theorem GenerateSchema_self_reference_never_returns:
  "GenerateSchema n (Heap nodeWorld) Map.empty (Some 0) = None"
  using GenerateSchema_node_diverges by simp

section \<open>Properties of the variable tracker\<close>

lemma FunctionMap_setVariables [simp]:
  "FunctionMap (setVariables names ty p t) = FunctionMap t"
  by (induction names arbitrary: t) (simp_all add: setVariable_def)

lemma FunctionMap_inWorld [simp]: "FunctionMap (snd (inWorld f t)) = FunctionMap t"
  by (simp add: inWorld_def split: prod.splits)

lemma FunctionMap_trackParams [simp]: "FunctionMap (trackParams ps t) = FunctionMap t"
proof (induction ps arbitrary: t)
  case Nil
  show ?case by simp
next
  case (Cons p ps)
  obtain names ty tag where p: "p = AstField names ty tag" by (cases p)
  obtain r t1 where r: "inWorld (ResolveType ty) t = (r, t1)"
    by (cases "inWorld (ResolveType ty) t")
  have "FunctionMap t1 = FunctionMap t"
    using FunctionMap_inWorld [of "ResolveType ty" t] r by simp
  then show ?case using Cons.IH r p by (cases r) simp_all
qed

lemma trackLhs_two_from_call:
  assumes "FunctionMap t f = None"
  shows "trackLhs 0 [Ident a, Ident b] [CallExpr (Ident f) args] t = Inl IndexOutOfRange"
  using assms
  by (simp add: newType_def inWorld_def alloc_def setVariable_def)

text \<open>
  C3 (the code does not do what the claim says).  In a fresh tracker, whatever the
  parameters, a function body that holds the statement \<^verbatim>\<open>a, b := f(...)\<close> makes
  \<open>TrackFunction\<close> panic: for the second variable the type comes from \<open>stmt.Rhs[0]\<close>, and
  the \<open>VariableInfo\<close> is then built with \<open>stmt.Rhs[1]\<close>, past the end of the list.
\<close>

theorem TrackFunction_multi_assign_panics:
  "TrackFunction params [AssignStmt [Ident a, Ident b] T_DEFINE [CallExpr (Ident f) args]]
     (NewVariableTracker w) = Inl IndexOutOfRange"
proof -
  have "FunctionMap (trackParams params (NewVariableTracker w\<lparr>Variables := Map.empty\<rparr>)) f = None"
    by (simp add: NewVariableTracker_def)
  then show ?thesis
    by (simp add: TrackFunction_def trackAssignment_def trackLhs_two_from_call del: trackLhs.simps)
qed

lemma Variables_inWorld [simp]: "Variables (snd (inWorld f t)) = Variables t"
  by (simp add: inWorld_def split: prod.splits)

lemma Variables_newType [simp]: "Variables (snd (newType td t)) = Variables t"
  by (simp add: newType_def)

lemma Variables_resolveFunctionCallType [simp]:
  "Variables (snd (resolveFunctionCallType f t)) = Variables t"
  by (cases "(f, t)" rule: resolveFunctionCallType.cases) (auto split: option.splits)

lemma inWorld_Variables: "inWorld f t = (r, t1) \<Longrightarrow> Variables t1 = Variables t"
  by (auto simp: inWorld_def split: prod.splits)

lemma Variables_resolveExpressionType [simp]:
  "Variables (snd (resolveExpressionType e t)) = Variables t"
proof (induction e t rule: resolveExpressionType.induct)
  case (2 x sel t)
  obtain r t1 where r: "inWorld (lookupType (x @ ''.'' @ sel)) t = (r, t1)"
    by (cases "inWorld (lookupType (x @ ''.'' @ sel)) t")
  have "Variables t1 = Variables t"
    using r by (rule inWorld_Variables)
  then show ?case using r by (auto split: option.splits)
next
  case (5 op x t)
  obtain r t1 where r: "resolveExpressionType x t = (r, t1)"
    by (cases "resolveExpressionType x t")
  show ?case
  proof (cases "op = T_AND")
    case True
    with 5 r have "Variables t1 = Variables t" by simp
    then show ?thesis using True r by (cases r) simp_all
  next
    case False
    then show ?thesis by simp
  qed
qed (auto split: option.splits)

lemma resolveExpressionType_Variables:
  "resolveExpressionType e t = (r, t1) \<Longrightarrow> Variables t1 = Variables t"
  using Variables_resolveExpressionType [of e t] by simp

lemma Variables_setVariables:
  "Variables (setVariables names ty p t) x =
     (if x \<in> set names then Some \<lparr>VarName = x, VarType = ty, VarIsPointer = p\<rparr>
      else Variables t x)"
  by (induction names arbitrary: t) (auto simp: setVariable_def)

lemma trackLhs_other:
  "trackLhs i lhs rhs t = Inr t' \<Longrightarrow> Ident x \<notin> set lhs \<Longrightarrow> Variables t' x = Variables t x"
proof (induction i lhs rhs t rule: trackLhs.induct)
  case (2 i name rest rhs t)
  let ?res = "if i < length rhs then resolveExpressionType (rhs ! i) t
            else if length rhs = 1 then resolveExpressionType (rhs ! 0) t
            else (None, t)"
  obtain r t1 where r: "?res = (r, t1)" by (cases ?res)
  have v: "Variables t1 = Variables t"
    using r by (auto split: if_splits dest: resolveExpressionType_Variables)
  show ?case
  proof (cases r)
    case None
    with 2 r v show ?thesis by simp
  next
    case (Some rhsType)
    with 2 r v show ?thesis
      by (auto simp: setVariable_def split: if_splits)
  qed
qed auto

lemma trackSpecs_other:
  "\<not> list_ex (specDeclares x) specs \<Longrightarrow> Variables (trackSpecs specs t) x = Variables t x"
proof (induction specs t rule: trackSpecs.induct)
  case (2 names ty vals rest t)
  let ?res = "if ty \<noteq> NilExpr then inWorld (ResolveType ty) t
            else if vals \<noteq> [] then resolveExpressionType (hd vals) t
            else (None, t)"
  obtain r t1 where r: "?res = (r, t1)" by (cases ?res)
  have v: "Variables t1 = Variables t"
    using r by (auto split: if_splits dest: resolveExpressionType_Variables inWorld_Variables)
  show ?case
  proof (cases r)
    case None
    with 2 r v show ?thesis by simp
  next
    case (Some varType)
    with 2 r v show ?thesis by (simp add: Variables_setVariables)
  qed
qed auto

lemma trackBody_other:
  "trackBody body t = Inr t' \<Longrightarrow> \<not> list_ex (assignsTo x) body \<Longrightarrow>
   Variables t' x = Variables t x"
proof (induction body t rule: trackBody.induct)
  case (2 lhs tok rhs rest t)
  then show ?case
    by (auto simp: trackAssignment_def split: sum.splits if_splits dest: trackLhs_other)
next
  case (3 d rest t)
  then show ?case
    by (cases d) (auto simp: trackSpecs_other)
qed auto

lemma trackBody_append:
  "trackBody (xs @ ys) t = (case trackBody xs t of Inl p \<Rightarrow> Inl p | Inr t1 \<Rightarrow> trackBody ys t1)"
  by (induction xs t rule: trackBody.induct) (auto split: sum.splits)

lemmas eval_tracker = TrackFunction_def trackAssignment_def newType_def inWorld_def alloc_def
  setVariable_def NewVariableTracker_def emptyWorld_def reportedName_def scopeEntryName_def
  GetVariableType_def basicTypeDefinition_def lookupType_def LookupType_def ContainsDot_def
  RegisterPackage_def SetCurrentPackage_def NewTypeRegistry_def Let_def

text \<open>
  C4 (counterexample).  \<open>x\<close> is bound to a string, reassigned to an int, passed to
  \<open>c.JSON\<close>, and assigned a float afterwards: the type reported for \<open>x\<close> is
  \<open>float64\<close>, its type at function exit, not \<open>int\<close>.
\<close>

theorem reported_type_counterexample:
  "reportedName (TrackFunction [] interfaceBody (NewVariableTracker (emptyWorld ''app''))) (Ident ''x'')
     = Some ''float64''"
  by (simp add: interfaceBody_def eval_tracker)

text \<open>
  C4 (as amended).  \<open>TrackFunction\<close> walks the whole body before any call site is
  looked at, so the type reported for \<open>x\<close> is the type of the last assignment to \<open>x\<close>
  in the body: if the assignment \<open>x = e\<close> resolves to \<open>b\<close> and no later node writes
  \<open>x\<close>, the analyzer reports \<open>b\<close>, wherever the call site stands in the body.
\<close>

theorem last_assignment_wins:
  assumes "TrackFunction ps pre t = Inr t1"
    and "resolveExpressionType e t1 = (Some b, t2)"
    and "tok = T_DEFINE \<or> tok = T_ASSIGN"
    and "\<not> list_ex (assignsTo x) post"
    and "TrackFunction ps (pre @ AssignStmt [Ident x] tok [e] # post) t = Inr t3"
  shows "resolveResponseType (Ident x) t3 = (Some b, t3)"
proof -
  have a: "trackAssignment [Ident x] tok [e] t1 = Inr (setVariable x b (isPointerType e) t2)"
    using assms(2,3) by (auto simp: trackAssignment_def)
  have "trackBody post (setVariable x b (isPointerType e) t2) = Inr t3"
    using assms(1,5) a by (simp add: TrackFunction_def trackBody_append)
  then have "Variables t3 x = Variables (setVariable x b (isPointerType e) t2) x"
    using assms(4) by (rule trackBody_other)
  then show ?thesis by (simp add: GetVariableType_def setVariable_def)
qed


theorem last_assignment_wins_witness:
  "\<exists>t1 t3. TrackFunction [] [AssignStmt [Ident ''x''] T_DEFINE [BasicLit T_STRING ''a'']]
              (NewVariableTracker (emptyWorld ''app'')) = Inr t1
     \<and> TrackFunction []
          ([AssignStmt [Ident ''x''] T_DEFINE [BasicLit T_STRING ''a'']] @
           AssignStmt [Ident ''x''] T_ASSIGN [BasicLit T_INT ''1''] #
           [ExprNode (CallExpr (SelectorExpr (Ident ''c'') ''JSON'') [BasicLit T_INT ''200'', Ident ''x''])])
          (NewVariableTracker (emptyWorld ''app'')) = Inr t3
     \<and> resolveResponseType (Ident ''x'') t3 = (Some (NextAddr (W t1)), t3)
     \<and> Name (Heap (W t3) (NextAddr (W t1))) = ''int''"
proof -
  let ?t0 = "NewVariableTracker (emptyWorld ''app'')"
  let ?pre = "[AssignStmt [Ident ''x''] T_DEFINE [BasicLit T_STRING ''a'']]"
  let ?post = "[ExprNode (CallExpr (SelectorExpr (Ident ''c'') ''JSON'') [BasicLit T_INT ''200'', Ident ''x''])]"
  obtain t1 where t1: "TrackFunction [] ?pre ?t0 = Inr t1"
    by (simp add: eval_tracker)
  obtain t2 where t2: "resolveExpressionType (BasicLit T_INT ''1'') t1 = (Some (NextAddr (W t1)), t2)"
    by (simp add: newType_def inWorld_def alloc_def)
  obtain t3 where t3: "TrackFunction [] (?pre @ AssignStmt [Ident ''x''] T_ASSIGN [BasicLit T_INT ''1''] # ?post) ?t0 = Inr t3"
    by (simp add: eval_tracker)
  have "resolveResponseType (Ident ''x'') t3 = (Some (NextAddr (W t1)), t3)"
    using last_assignment_wins [OF t1 t2 _ _ t3] by simp
  moreover have "Name (Heap (W t3) (NextAddr (W t1))) = ''int''"
    using t1 t3 by (auto simp: eval_tracker)
  ultimately show ?thesis using t1 t3 by blast
qed

text \<open>
  C5 (counterexample).  The difference \<open>y - z\<close> resolves to no type.  Assigning it to
  \<open>v\<close>, which held a string, leaves the entry of \<open>v\<close> at \<open>string\<close>; defining \<open>n\<close> by
  it leaves \<open>n\<close> without an entry.
\<close>

theorem unresolved_assignment_counterexample:
  "fst (resolveExpressionType (BinaryExpr (Ident ''y'') T_SUB (Ident ''z''))
          (NewVariableTracker (emptyWorld ''app''))) = None
   \<and> scopeEntryName (TrackFunction []
          [AssignStmt [Ident ''v''] T_ASSIGN [BasicLit T_STRING ''s''],
           AssignStmt [Ident ''v''] T_ASSIGN [BinaryExpr (Ident ''y'') T_SUB (Ident ''z'')]]
          (NewVariableTracker (emptyWorld ''app''))) ''v'' = Some ''string''
   \<and> scopeEntryName (TrackFunction []
          [AssignStmt [Ident ''n''] T_DEFINE [BinaryExpr (Ident ''y'') T_SUB (Ident ''z'')]]
          (NewVariableTracker (emptyWorld ''app''))) ''n'' = None"
  by (simp add: eval_tracker)

text \<open>
  C5 (as amended).  An assignment \<open>x = e\<close> whose right-hand side resolves to nil does not
  abort and leaves the scope table as it was; a call of a function with no registered
  return type is the unresolved right-hand side for which a placeholder is recorded, the
  basic type \<open>any\<close>.
\<close>

theorem unresolved_assignment_keeps_entry:
  "(fst (resolveExpressionType e t) = None \<longrightarrow>
      (\<exists>t'. trackAssignment [Ident x] tok [e] t = Inr t' \<and> Variables t' = Variables t))
   \<and> (FunctionMap t f = None \<longrightarrow>
      scopeEntryName (trackAssignment [Ident x] T_ASSIGN [CallExpr (Ident f) args] t) x = Some ''any'')"
proof (intro conjI impI)
  assume n: "fst (resolveExpressionType e t) = None"
  obtain r t1 where r: "resolveExpressionType e t = (r, t1)" by (cases "resolveExpressionType e t")
  with n have "r = None" by simp
  moreover have "Variables t1 = Variables t" using r by (rule resolveExpressionType_Variables)
  ultimately show "\<exists>t'. trackAssignment [Ident x] tok [e] t = Inr t' \<and> Variables t' = Variables t"
    using r by (auto simp: trackAssignment_def)
next
  assume "FunctionMap t f = None"
  then show "scopeEntryName (trackAssignment [Ident x] T_ASSIGN [CallExpr (Ident f) args] t) x = Some ''any''"
    by (simp add: trackAssignment_def scopeEntryName_def newType_def inWorld_def alloc_def
        setVariable_def basicTypeDefinition_def)
qed

theorem unresolved_assignment_keeps_entry_witness:
  "(\<exists>t'. trackAssignment [Ident ''v''] T_ASSIGN [BinaryExpr (Ident ''y'') T_SUB (Ident ''z'')]
            (NewVariableTracker (emptyWorld ''app'')) = Inr t'
          \<and> Variables t' = Variables (NewVariableTracker (emptyWorld ''app'')))
   \<and> scopeEntryName (trackAssignment [Ident ''v''] T_ASSIGN [CallExpr (Ident ''f'') []]
          (NewVariableTracker (emptyWorld ''app''))) ''v'' = Some ''any''"
  using unresolved_assignment_keeps_entry
    [of "BinaryExpr (Ident ''y'') T_SUB (Ident ''z'')" "NewVariableTracker (emptyWorld ''app'')"
        "''v''" T_ASSIGN "''f''" "[]"]
  by (simp add: NewVariableTracker_def)

section \<open>Properties of generated schemas\<close>

lemma structFields_returns:
  "(\<And>c g. c \<in> set (concat (map (\<lambda>field. optList (FieldType field)) fs)) \<Longrightarrow> gen g (Some c) \<noteq> None)
   \<Longrightarrow> structFields gen g fs s \<noteq> None"
proof (induction fs arbitrary: g s)
  case Nil
  show ?case by simp
next
  case (Cons f fs)
  show ?case
  proof (cases "FieldType f")
    case None
    with Cons show ?thesis by (simp add: optList_def)
  next
    case (Some c)
    with Cons.prems have "gen g (Some c) \<noteq> None" by (simp add: optList_def)
    then obtain r g' where r: "gen g (Some c) = Some (r, g')" by (cases "gen g (Some c)") auto
    have "\<And>s'. structFields gen g' fs s' \<noteq> None"
      using Cons.IH Cons.prems by simp
    with Some r show ?thesis by (cases r) simp_all
  qed
qed

lemma GenerateSchema_returns:
  "finiteType d h a \<Longrightarrow> GenerateSchema d h g (Some a) \<noteq> None"
proof (induction d arbitrary: a g)
  case 0
  then show ?case by simp
next
  case (Suc d)
  have ch: "GenerateSchema d h g1 (Some c) \<noteq> None" if "c \<in> set (children (h a))" for c g1
    using Suc that by (simp add: list_all_iff)
  have "schemaByKind (GenerateSchema d h) h g a \<noteq> None"
  proof (cases "Kind (h a)")
    case KindStruct
    then show ?thesis
      using ch structFields_returns [of "Fields (h a)" "GenerateSchema d h"]
      by (simp add: schemaByKind_def generateStructSchema_def children_def)
  next
    case KindArray
    show ?thesis
    proof (cases "ElementType (h a)")
      case None
      with KindArray show ?thesis by (simp add: schemaByKind_def generateArraySchema_def)
    next
      case (Some e)
      with KindArray have "GenerateSchema d h g (Some e) \<noteq> None"
        by (intro ch) (simp add: children_def optList_def)
      with KindArray Some show ?thesis
        by (auto simp: schemaByKind_def generateArraySchema_def)
    qed
  next
    case KindMap
    show ?thesis
    proof (cases "ValueType (h a)")
      case None
      with KindMap show ?thesis by (simp add: schemaByKind_def generateMapSchema_def)
    next
      case (Some v)
      with KindMap have "GenerateSchema d h g (Some v) \<noteq> None"
        by (intro ch) (simp add: children_def optList_def)
      with KindMap Some show ?thesis
        by (auto simp: schemaByKind_def generateMapSchema_def)
    qed
  next
    case KindBasic
    then show ?thesis by (simp add: schemaByKind_def)
  next
    case KindPointer
    show ?thesis
    proof (cases "ElementType (h a)")
      case None
      with KindPointer show ?thesis by (simp add: schemaByKind_def)
    next
      case (Some e)
      with KindPointer have "GenerateSchema d h g (Some e) \<noteq> None"
        by (intro ch) (simp add: children_def optList_def)
      with KindPointer Some show ?thesis
        by (auto simp: schemaByKind_def)
    qed
  qed
  then obtain r where "schemaByKind (GenerateSchema d h) h g a = Some r" by auto
  then show ?case by (cases "g (schemaKey (h a))") simp_all
qed



lemmas eval_world = processTypeDeclaration_def alloc_def
      RegisterType_def RegisterPackage_def SetCurrentPackage_def NewTypeRegistry_def
      lookupType_def LookupType_def ContainsDot_def isBasicType_def appendFields_def
      fieldDefinitions_def extractJSONTag_def Let_def emptyWorld_def basicTypeDefinition_def
      jsonTag_def Trim_def HasPrefix_def TrimPrefix_def zeroType_def

lemma userWorld_heap:
  "Heap userWorld = (\<lambda>a.
     if a = 0 then \<lparr>Name = ''User'', Kind = KindStruct,
        Fields = [\<lparr>FieldName = ''ID'', FieldType = Some 1, JSONName = ''id'', Omitempty = False, IsPointer = False\<rparr>,
                  \<lparr>FieldName = ''Name'', FieldType = Some 2, JSONName = ''name'', Omitempty = False, IsPointer = False\<rparr>,
                  \<lparr>FieldName = ''Bio'', FieldType = Some 3, JSONName = ''bio'', Omitempty = True, IsPointer = False\<rparr>],
        ElementType = None, KeyType = None, ValueType = None, Package = ''app'', BasicType = '''',
        IsResolved = False\<rparr>
     else if a = 1 then basicTypeDefinition ''int'' ''app''
     else if a = 2 then basicTypeDefinition ''string'' ''app''
     else if a = 3 then basicTypeDefinition ''string'' ''app''
     else zeroType)"
  by (rule ext) (simp add: userWorld_def eval_world)






lemma structFields_mono:
  assumes "\<And>g t r. gen g t = Some r \<Longrightarrow> gen' g t = Some r"
  shows "structFields gen g fs s = Some r \<Longrightarrow> structFields gen' g fs s = Some r"
proof (induction fs arbitrary: g s)
  case Nil
  then show ?case by simp
next
  case (Cons f fs)
  show ?case
  proof (cases "FieldType f")
    case None
    with Cons show ?thesis by simp
  next
    case (Some c)
    with Cons.prems obtain r1 g1 where r1: "gen g (Some c) = Some (r1, g1)"
      by (cases "gen g (Some c)") auto
    then have r1': "gen' g (Some c) = Some (r1, g1)" by (rule assms)
    from Cons.prems Some r1 r1' Cons.IH show ?thesis
      by (cases r1) auto
  qed
qed

lemma schemaByKind_mono:
  assumes "\<And>g t r. gen g t = Some r \<Longrightarrow> gen' g t = Some r"
  shows "schemaByKind gen h g a = Some r \<Longrightarrow> schemaByKind gen' h g a = Some r"
proof (cases "Kind (h a)")
  case KindStruct
  assume "schemaByKind gen h g a = Some r"
  with KindStruct show ?thesis
    using structFields_mono [of gen gen', OF assms]
    by (auto simp: schemaByKind_def generateStructSchema_def)
next
  case KindArray
  assume "schemaByKind gen h g a = Some r"
  with KindArray show ?thesis
    by (auto simp: schemaByKind_def generateArraySchema_def split: option.splits dest: assms)
next
  case KindMap
  assume "schemaByKind gen h g a = Some r"
  with KindMap show ?thesis
    by (auto simp: schemaByKind_def generateMapSchema_def split: option.splits dest: assms)
next
  case KindBasic
  assume "schemaByKind gen h g a = Some r"
  with KindBasic show ?thesis by (simp add: schemaByKind_def)
next
  case KindPointer
  assume "schemaByKind gen h g a = Some r"
  with KindPointer show ?thesis
    by (auto simp: schemaByKind_def split: option.splits dest: assms)
qed

lemma GenerateSchema_Suc:
  "GenerateSchema n h g t = Some r \<Longrightarrow> GenerateSchema (Suc n) h g t = Some r"
proof (induction n arbitrary: g t r)
  case 0
  then show ?case by simp
next
  case (Suc n)
  show ?case
  proof (cases t)
    case None
    with Suc.prems show ?thesis by simp
  next
    case (Some a)
    show ?thesis
    proof (cases "g (schemaKey (h a))")
      case (Some s)
      with Suc.prems \<open>t = Some a\<close> show ?thesis by simp
    next
      case None
      with Suc.prems \<open>t = Some a\<close> obtain r0 where
        r0: "schemaByKind (GenerateSchema n h) h g a = Some r0"
        and r: "r = storeSchema (schemaKey (h a)) r0"
        by auto
      from r0 have "schemaByKind (GenerateSchema (Suc n) h) h g a = Some r0"
        by (rule schemaByKind_mono [rotated]) (rule Suc.IH)
      with None r \<open>t = Some a\<close> show ?thesis by simp
    qed
  qed
qed

lemma GenerateSchema_more_fuel:
  "n \<le> m \<Longrightarrow> GenerateSchema n h g t = Some r \<Longrightarrow> GenerateSchema m h g t = Some r"
  by (induction m) (auto simp: le_Suc_eq dest: GenerateSchema_Suc simp del: GenerateSchema.simps)

text \<open>
  The pointer branch of \<open>GenerateSchema\<close>.  For a pointer type definition with element
  \<open>x\<close>, when no schema is stored under the pointer's own key, \<open>GenerateSchema\<close> on the
  pointer returns the schema that \<open>GenerateSchema\<close> on \<open>x\<close> returns, one level of nesting
  deeper; and when the type graph of \<open>x\<close> is finite both calls return, with the same
  schema, for every fuel above its depth.  When a schema is stored under the pointer's key,
  that schema is returned instead.
\<close>

lemma pointer_schema:
  assumes "Kind (h p) = KindPointer" and "ElementType (h p) = Some x"
    and "g (schemaKey (h p)) = None"
  shows "map_option fst (GenerateSchema (Suc n) h g (Some p))
           = map_option fst (GenerateSchema n h g (Some x))
     \<and> (finiteType n h x \<longrightarrow> n \<le> m \<longrightarrow>
          (\<exists>r gx gp. GenerateSchema (Suc m) h g (Some x) = Some (r, gx)
                   \<and> GenerateSchema (Suc m) h g (Some p) = Some (r, gp)))"
proof (intro conjI impI)
  have st: "fst (storeSchema k r) = fst r" for k r
    by (cases r) (auto simp: storeSchema_def split: option.splits)
  show "map_option fst (GenerateSchema (Suc n) h g (Some p))
      = map_option fst (GenerateSchema n h g (Some x))"
    using assms by (simp add: schemaByKind_def option.map_comp comp_def st)
next
  assume fin: "finiteType n h x" and le: "n \<le> m"
  from fin have "GenerateSchema n h g (Some x) \<noteq> None" by (rule GenerateSchema_returns)
  then obtain r gx where x: "GenerateSchema n h g (Some x) = Some (r, gx)" by auto
  from le x have xm: "GenerateSchema m h g (Some x) = Some (r, gx)"
    by (rule GenerateSchema_more_fuel)
  then have xs: "GenerateSchema (Suc m) h g (Some x) = Some (r, gx)"
    by (rule GenerateSchema_Suc)
  have "GenerateSchema (Suc m) h g (Some p) = Some (storeSchema (schemaKey (h p)) (r, gx))"
    using assms xm by (simp add: schemaByKind_def)
  moreover have "fst (storeSchema (schemaKey (h p)) (r, gx)) = r"
    by (auto simp: storeSchema_def split: option.splits)
  ultimately have "\<exists>gp. GenerateSchema (Suc m) h g (Some p) = Some (r, gp)"
    by (cases "storeSchema (schemaKey (h p)) (r, gx)") auto
  with xs show "\<exists>r gx gp. GenerateSchema (Suc m) h g (Some x) = Some (r, gx)
                   \<and> GenerateSchema (Suc m) h g (Some p) = Some (r, gp)"
    by blast
qed




lemma holderWorld_heap:
  "Heap holderWorld = (\<lambda>a.
     if a = 0 then \<lparr>Name = ''User'', Kind = KindStruct,
        Fields = [\<lparr>FieldName = ''Name'', FieldType = Some 1, JSONName = '''', Omitempty = False, IsPointer = False\<rparr>],
        ElementType = None, KeyType = None, ValueType = None, Package = ''example.com/models'',
        BasicType = '''', IsResolved = False\<rparr>
     else if a = 1 then basicTypeDefinition ''string'' ''example.com/models''
     else if a = 2 then \<lparr>Name = ''User'', Kind = KindStruct,
        Fields = [\<lparr>FieldName = ''ID'', FieldType = Some 3, JSONName = '''', Omitempty = False, IsPointer = False\<rparr>],
        ElementType = None, KeyType = None, ValueType = None, Package = ''app'',
        BasicType = '''', IsResolved = False\<rparr>
     else if a = 3 then basicTypeDefinition ''int'' ''app''
     else if a = 4 then \<lparr>Name = ''Holder'', Kind = KindStruct,
        Fields = [\<lparr>FieldName = ''A'', FieldType = Some 5, JSONName = '''', Omitempty = False, IsPointer = True\<rparr>,
                  \<lparr>FieldName = ''B'', FieldType = Some 6, JSONName = '''', Omitempty = False, IsPointer = True\<rparr>],
        ElementType = None, KeyType = None, ValueType = None, Package = ''app'',
        BasicType = '''', IsResolved = False\<rparr>
     else if a = 5 then \<lparr>Name = ''*User'', Kind = KindPointer, Fields = [],
        ElementType = Some 2, KeyType = None, ValueType = None, Package = ''app'',
        BasicType = '''', IsResolved = False\<rparr>
     else if a = 6 then \<lparr>Name = ''*User'', Kind = KindPointer, Fields = [],
        ElementType = Some 0, KeyType = None, ValueType = None, Package = ''app'',
        BasicType = '''', IsResolved = False\<rparr>
     else zeroType)"
  by (rule ext)
    (simp add: holderWorld_def appWorld_def modelsWorld_def eval_world RegisterImport_def SplitN2_def)

lemmas eval_schema = schemaByKind_def generateStructSchema_def generateArraySchema_def
  generateMapSchema_def storeSchema_def schemaKey_def basicTypeDefinition_def
  generateBasicSchema_def propertiesOf_def requiredOf_def addProperty_def wireName_def
  propertyOf_def emptyObject_def thenGenerateSchema_def

text \<open>
  The table \<open>Schemas\<close> is keyed by package and name, and \<open>ResolveType\<close> gives both
  \<open>*User\<close> and \<open>*models.User\<close> the name \<open>*User\<close> in package \<open>app\<close>.  On the generator
  that has generated the first pointer, the second one gets the stored schema (of
  \<open>app.User\<close>), while its element \<open>models.User\<close> gets a schema of its own.
\<close>

lemma memo_key_shared:
  "requiredOf (thenGenerateSchema 3 (Heap holderWorld) 6
      (GenerateSchema 3 (Heap holderWorld) Map.empty (Some 5))) = [''ID'']
   \<and> requiredOf (thenGenerateSchema 3 (Heap holderWorld) 0
      (GenerateSchema 3 (Heap holderWorld) Map.empty (Some 5))) = [''Name'']"
  by (simp add: numeral_3_eq_3 holderWorld_heap eval_schema)

lemma pointer_schema_on_holder:
  "(\<exists>r gx gp. GenerateSchema 3 (Heap holderWorld) Map.empty (Some 2) = Some (r, gx)
             \<and> GenerateSchema 3 (Heap holderWorld) Map.empty (Some 5) = Some (r, gp))
   \<and> requiredOf (GenerateSchema 3 (Heap holderWorld) Map.empty (Some 5)) = [''ID'']
   \<and> requiredOf (GenerateSchema 3 (Heap holderWorld) Map.empty (Some 2)) = [''ID'']"
proof -
  have k: "Kind (Heap holderWorld 5) = KindPointer" "ElementType (Heap holderWorld 5) = Some 2"
    "Map.empty (schemaKey (Heap holderWorld 5)) = None"
    by (simp_all add: holderWorld_heap)
  have f: "finiteType 2 (Heap holderWorld) 2"
    by (simp add: numeral_2_eq_2 holderWorld_heap children_def optList_def basicTypeDefinition_def)
  from pointer_schema [where h="Heap holderWorld" and p=5 and x=2 and g=Map.empty and n=2 and m=2,
      OF k] f
  have "\<exists>r gx gp. GenerateSchema 3 (Heap holderWorld) Map.empty (Some 2) = Some (r, gx)
             \<and> GenerateSchema 3 (Heap holderWorld) Map.empty (Some 5) = Some (r, gp)"
    by (simp add: numeral_3_eq_3 numeral_2_eq_2 del: GenerateSchema.simps)
  moreover have "requiredOf (GenerateSchema 3 (Heap holderWorld) Map.empty (Some 5)) = [''ID'']"
    "requiredOf (GenerateSchema 3 (Heap holderWorld) Map.empty (Some 2)) = [''ID'']"
    by (simp_all add: numeral_3_eq_3 holderWorld_heap eval_schema)
  ultimately show ?thesis by simp
qed



section \<open>Properties of the package resolver\<close>

lemma marks_refl [simp]: "marks h h"
  by (simp add: marks_def)

lemma marks_trans: "marks h h' \<Longrightarrow> marks h' h'' \<Longrightarrow> marks h h''"
  unfolding marks_def
proof (intro allI)
  fix b
  assume a: "\<forall>b. h' b = h b \<or> h' b = (h b)\<lparr>IsResolved := True\<rparr>"
    and b: "\<forall>b. h'' b = h' b \<or> h'' b = (h' b)\<lparr>IsResolved := True\<rparr>"
  from a have "h' b = h b \<or> h' b = (h b)\<lparr>IsResolved := True\<rparr>" by blast
  moreover from b have "h'' b = h' b \<or> h'' b = (h' b)\<lparr>IsResolved := True\<rparr>" by blast
  ultimately show "h'' b = h b \<or> h'' b = (h b)\<lparr>IsResolved := True\<rparr>" by auto
qed

lemma marks_markResolved: "marks h (markResolved a h)"
  by (simp add: marks_def markResolved_def)

lemma marks_IsResolved: "marks h h' \<Longrightarrow> IsResolved (h b) \<Longrightarrow> IsResolved (h' b)"
  unfolding marks_def by (metis TypeDefinition.select_convs(9) TypeDefinition.surjective TypeDefinition.update_convs(9))

lemma marks_Fields: "marks h h' \<Longrightarrow> Fields (h' b) = Fields (h b)"
  unfolding marks_def by (metis TypeDefinition.select_convs(3) TypeDefinition.surjective TypeDefinition.update_convs(9))

lemma resolveFieldTypes_marks:
  assumes "\<forall>h a h'. res h a = Some h' \<longrightarrow> marks h h'"
  shows "resolveFieldTypes res h fs = Some h' \<Longrightarrow> marks h h'"
proof (induction fs arbitrary: h)
  case Nil
  then show ?case by simp
next
  case (Cons f fs)
  show ?case
  proof (cases "FieldType f")
    case None
    with Cons show ?thesis by simp
  next
    case (Some t)
    with Cons.prems obtain h1 where h1: "res h t = Some h1"
      and r: "resolveFieldTypes res h1 fs = Some h'"
      by (cases "res h t") auto
    from h1 assms have "marks h h1" by blast
    moreover from r have "marks h1 h'" by (rule Cons.IH)
    ultimately show ?thesis by (rule marks_trans)
  qed
qed

lemma resolveOpt_marks:
  assumes "\<forall>h a h'. res h a = Some h' \<longrightarrow> marks h h'"
  shows "resolveOpt res h t = Some h' \<Longrightarrow> marks h h'"
  using assms by (cases t) (auto simp: resolveOpt_def)

lemma resolveByKind_marks:
  assumes "\<forall>h a h'. res h a = Some h' \<longrightarrow> marks h h'"
    and "resolveByKind res h a = Some h'"
  shows "marks h h'"
proof (cases "Kind (h a)")
  case KindStruct
  with assms(2) show ?thesis
    using resolveFieldTypes_marks [OF assms(1)] by (simp add: resolveByKind_def)
next
  case KindArray
  with assms(2) show ?thesis
    using resolveOpt_marks [OF assms(1)] by (simp add: resolveByKind_def)
next
  case KindMap
  with assms(2) obtain h1 where h1: "resolveOpt res h (KeyType (h a)) = Some h1"
    and h2: "resolveOpt res h1 (ValueType (h1 a)) = Some h'"
    by (auto simp: resolveByKind_def split: option.splits)
  from h1 have "marks h h1" by (rule resolveOpt_marks [OF assms(1)])
  moreover from h2 have "marks h1 h'" by (rule resolveOpt_marks [OF assms(1)])
  ultimately show ?thesis by (rule marks_trans)
next
  case KindBasic
  with assms(2) show ?thesis by (simp add: resolveByKind_def)
next
  case KindPointer
  with assms(2) show ?thesis
    using resolveOpt_marks [OF assms(1)] by (simp add: resolveByKind_def)
qed

lemma resolveType_marks: "resolveType n h a = Some h' \<Longrightarrow> marks h h'"
proof (induction n arbitrary: h a h')
  case 0
  then show ?case by simp
next
  case (Suc n)
  show ?case
  proof (cases "IsResolved (h a)")
    case True
    with Suc.prems show ?thesis by simp
  next
    case False
    with Suc.prems obtain h0 where h0: "resolveByKind (resolveType n) h a = Some h0"
      and h': "h' = markResolved a h0"
      by auto
    have "\<forall>h a h'. resolveType n h a = Some h' \<longrightarrow> marks h h'"
      using Suc.IH by blast
    then have "marks h h0" using h0 by (rule resolveByKind_marks)
    with h' show ?thesis using marks_markResolved marks_trans by blast
  qed
qed

lemma resolveType_resolved: "resolveType n h a = Some h' \<Longrightarrow> IsResolved (h' a)"
  by (cases n) (auto simp: markResolved_def split: if_splits)

lemma resolveType_skip: "IsResolved (h a) \<Longrightarrow> resolveType (Suc n) h a = Some h"
  by simp

lemma resolveTypes_marks:
  "resolveTypes tf as h = Some h' \<Longrightarrow> marks h h' \<and> (\<forall>a \<in> set as. IsResolved (h' a))"
proof (induction as arbitrary: h)
  case Nil
  then show ?case by simp
next
  case (Cons a as)
  then obtain h1 where h1: "resolveType tf h a = Some h1"
    and r: "resolveTypes tf as h1 = Some h'"
    by (cases "resolveType tf h a") auto
  from h1 have m1: "marks h h1" and r1: "IsResolved (h1 a)"
    by (rule resolveType_marks, rule resolveType_resolved)
  from Cons.IH [OF r] have m2: "marks h1 h'" and r2: "\<forall>a \<in> set as. IsResolved (h' a)"
    by simp_all
  from m1 m2 have "marks h h'" by (rule marks_trans)
  moreover from m2 r1 have "IsResolved (h' a)" by (rule marks_IsResolved)
  ultimately show ?case using r2 by simp
qed

lemma resolveTypes_fuel: "resolveTypes tf as h = Some h' \<Longrightarrow> as = [] \<or> tf \<noteq> 0"
  by (cases as; cases tf) auto

lemma resolveTypes_skip:
  "\<forall>a \<in> set as. IsResolved (h a) \<Longrightarrow> as = [] \<or> tf \<noteq> 0 \<Longrightarrow> resolveTypes tf as h = Some h"
proof (induction as)
  case Nil
  show ?case by simp
next
  case (Cons a as)
  then obtain n where "tf = Suc n" by (cases tf) auto
  with Cons show ?case by simp
qed

lemma SetCurrentPackage_Packages:
  "Packages (SetCurrentPackage r p) =
     (if map_of (Packages r) p = None then Packages r @ [(p, \<lparr>Types = [], Imports = []\<rparr>)]
      else Packages r)"
  by (auto simp: SetCurrentPackage_def RegisterPackage_def Let_def)

lemma SetCurrentPackage_CurrentPackage [simp]:
  "CurrentPackage (SetCurrentPackage r p) = p"
  by (auto simp: SetCurrentPackage_def RegisterPackage_def Let_def split: option.splits)

lemma SetCurrentPackage_registered:
  "\<exists>i. map_of (Packages (SetCurrentPackage r p)) p = Some i"
  by (cases "map_of (Packages r) p") (auto simp: SetCurrentPackage_Packages map_add_def)

lemma growsBy_refl [simp]: "growsBy r r X"
  by (simp add: growsBy_def)

lemma growsBy_trans:
  assumes "growsBy r r' X" and "growsBy r' r'' Y" and "X \<subseteq> Y"
  shows "growsBy r r'' Y"
proof -
  from assms(1) obtain e1 where e1: "Packages r' = Packages r @ e1"
    "\<forall>e \<in> set e1. snd e = \<lparr>Types = [], Imports = []\<rparr> \<and> fst e \<in> X"
    by (auto simp: growsBy_def)
  from assms(2) obtain e2 where e2: "Packages r'' = Packages r' @ e2"
    "\<forall>e \<in> set e2. snd e = \<lparr>Types = [], Imports = []\<rparr> \<and> fst e \<in> Y"
    by (auto simp: growsBy_def)
  have "Packages r'' = Packages r @ (e1 @ e2)" using e1 e2 by simp
  moreover have "\<forall>e \<in> set (e1 @ e2). snd e = \<lparr>Types = [], Imports = []\<rparr> \<and> fst e \<in> Y"
    using e1 e2 assms(3) by auto
  ultimately show ?thesis unfolding growsBy_def by blast
qed

lemma growsBy_SetCurrentPackage: "p \<in> X \<Longrightarrow> growsBy r (SetCurrentPackage r p) X"
  by (auto simp: growsBy_def SetCurrentPackage_Packages)

lemma growsBy_keeps:
  "growsBy r r' X \<Longrightarrow> map_of (Packages r) q = Some i \<Longrightarrow> map_of (Packages r') q = Some i"
  by (auto simp: growsBy_def map_add_def)

lemma growsBy_new:
  assumes "growsBy r r' X" and "map_of (Packages r') q = Some i"
  shows "map_of (Packages r) q = Some i \<or> (i = \<lparr>Types = [], Imports = []\<rparr> \<and> q \<in> X)"
proof -
  from assms(1) obtain ext where e: "Packages r' = Packages r @ ext"
    "\<forall>e \<in> set ext. snd e = \<lparr>Types = [], Imports = []\<rparr> \<and> fst e \<in> X"
    by (auto simp: growsBy_def)
  show ?thesis
  proof (cases "map_of (Packages r) q")
    case None
    with assms(2) e(1) have "map_of ext q = Some i" by (simp add: map_add_def)
    then have "(q, i) \<in> set ext" by (rule map_of_SomeD)
    with e(2) show ?thesis by fastforce
  next
    case (Some j)
    with assms(2) e(1) show ?thesis by (simp add: map_add_def)
  qed
qed

lemma resolvedIn_keeps:
  assumes "resolvedIn w R" and "growsBy (Reg w) (Reg w') X" and "marks (Heap w) (Heap w')"
  shows "resolvedIn w' R"
  unfolding resolvedIn_def
proof
  fix p assume "p \<in> R"
  with assms(1) obtain i where i: "map_of (Packages (Reg w)) p = Some i"
    and r: "\<forall>a \<in> set (map snd (Types i)). IsResolved (Heap w a)"
    by (auto simp: resolvedIn_def)
  from assms(2) i have "map_of (Packages (Reg w')) p = Some i" by (rule growsBy_keeps)
  moreover have "\<forall>a \<in> set (map snd (Types i)). IsResolved (Heap w' a)"
    using r assms(3) marks_IsResolved by blast
  ultimately show "\<exists>i. map_of (Packages (Reg w')) p = Some i
      \<and> (\<forall>a \<in> set (map snd (Types i)). IsResolved (Heap w' a))"
    by blast
qed

lemma resolvePackageTypes_result:
  assumes "resolvePackageTypes tf p w = Some w'"
  shows "Reg w' = SetCurrentPackage (Reg w) p \<and> marks (Heap w) (Heap w')
     \<and> NextAddr w' = NextAddr w
     \<and> (\<exists>i. map_of (Packages (Reg w')) p = Some i
           \<and> (\<forall>a \<in> set (map snd (Types i)). IsResolved (Heap w' a))
           \<and> (Types i = [] \<or> tf \<noteq> 0))"
proof -
  obtain i where i: "map_of (Packages (SetCurrentPackage (Reg w) p)) p = Some i"
    using SetCurrentPackage_registered by blast
  with assms obtain h where h: "resolveTypes tf (map snd (Types i)) (Heap w) = Some h"
    and w': "w' = w\<lparr>Heap := h, Reg := SetCurrentPackage (Reg w) p\<rparr>"
    by (auto simp: resolvePackageTypes_def Let_def)
  from resolveTypes_marks [OF h] resolveTypes_fuel [OF h] i w' show ?thesis by auto
qed

lemma advances_refl [simp]: "advances s s"
  by (simp add: advances_def)

lemma advances_trans:
  assumes "advances s s'" and "advances s' s''"
  shows "advances s s''"
proof -
  have "growsBy (Reg (fst s)) (Reg (fst s'')) (snd s'')"
    using assms by (auto simp: advances_def intro: growsBy_trans)
  moreover have "marks (Heap (fst s)) (Heap (fst s''))"
    using assms by (auto simp: advances_def intro: marks_trans)
  ultimately show ?thesis using assms by (auto simp: advances_def)
qed

lemma resolveEach_advances:
  assumes "\<forall>p s s'. res p s = Some s' \<longrightarrow> advances s s' \<and> p \<in> snd s'"
  shows "resolveEach res ps s = Some s' \<Longrightarrow> advances s s' \<and> set ps \<subseteq> snd s'"
proof (induction ps arbitrary: s)
  case Nil
  then show ?case by simp
next
  case (Cons p ps)
  then obtain s1 where s1: "res p s = Some s1" and r: "resolveEach res ps s1 = Some s'"
    by (cases "res p s") auto
  from s1 assms have a1: "advances s s1" and p: "p \<in> snd s1" by blast+
  from Cons.IH [OF r] have a2: "advances s1 s'" and ps: "set ps \<subseteq> snd s'" by simp_all
  from a1 a2 have "advances s s'" by (rule advances_trans)
  moreover from a2 p have "p \<in> snd s'" by (auto simp: advances_def)
  ultimately show ?case using ps by simp
qed

lemma resolvePackageDependencies_advances:
  "resolvePackageDependencies pf tf deps p s = Some s' \<Longrightarrow> advances s s' \<and> p \<in> snd s'"
proof (induction pf arbitrary: p s s')
  case 0
  then show ?case by simp
next
  case (Suc pf)
  show ?case
  proof (cases "p \<in> snd s")
    case True
    with Suc.prems show ?thesis by simp
  next
    case False
    with Suc.prems obtain s1 w2 where
      s1: "resolveEach (resolvePackageDependencies pf tf deps) (dependenciesOf deps p) s = Some s1"
      and w2: "resolvePackageTypes tf p (fst s1) = Some w2"
      and s': "s' = (w2, insert p (snd s1))"
      by (auto split: option.splits)
    have ih: "\<forall>p s s'. resolvePackageDependencies pf tf deps p s = Some s'
        \<longrightarrow> advances s s' \<and> p \<in> snd s'"
      using Suc.IH by blast
    from resolveEach_advances [OF ih s1] have a1: "advances s s1" by simp
    from resolvePackageTypes_result [OF w2] obtain i where
      reg: "Reg w2 = SetCurrentPackage (Reg (fst s1)) p"
      and m: "marks (Heap (fst s1)) (Heap w2)"
      and n: "NextAddr w2 = NextAddr (fst s1)"
      and i: "map_of (Packages (Reg w2)) p = Some i"
      and r: "\<forall>a \<in> set (map snd (Types i)). IsResolved (Heap w2 a)"
      by blast
    have g: "growsBy (Reg (fst s1)) (Reg w2) (insert p (snd s1))"
      using reg by (simp add: growsBy_SetCurrentPackage)
    have "resolvedIn w2 (insert p (snd s1))" if "resolvedIn (fst s1) (snd s1)"
    proof -
      from that g m have "resolvedIn w2 (snd s1)" by (rule resolvedIn_keeps)
      with i r show ?thesis by (auto simp: resolvedIn_def)
    qed
    with g m n have "advances s1 s'" by (auto simp: advances_def s')
    with a1 have "advances s s'" by (rule advances_trans)
    then show ?thesis by (simp add: s')
  qed
qed

lemma ResolvePackages_result:
  assumes "ResolvePackages pf tf w = Some w'"
  shows "\<exists>R. resolveEach (resolvePackageDependencies pf tf (buildPackageDependencies (Reg w)))
              (map fst (Packages (Reg w))) (w, {}) = Some (w', R)
       \<and> growsBy (Reg w) (Reg w') R \<and> marks (Heap w) (Heap w') \<and> NextAddr w' = NextAddr w
       \<and> resolvedIn w' R \<and> fst ` set (Packages (Reg w)) \<subseteq> R"
proof -
  let ?res = "resolvePackageDependencies pf tf (buildPackageDependencies (Reg w))"
  from assms obtain R where
    r: "resolveEach ?res (map fst (Packages (Reg w))) (w, {}) = Some (w', R)"
    by (auto simp: ResolvePackages_def)
  have "\<forall>p s s'. ?res p s = Some s' \<longrightarrow> advances s s' \<and> p \<in> snd s'"
    using resolvePackageDependencies_advances by blast
  from resolveEach_advances [OF this r]
  have "advances (w, {}) (w', R)" and "set (map fst (Packages (Reg w))) \<subseteq> R" by simp_all
  then show ?thesis using r by (auto simp: advances_def resolvedIn_def)
qed

lemma ResolvePackages_resolved:
  assumes "ResolvePackages pf tf w = Some w'"
    and "map_of (Packages (Reg w')) p = Some i" and "a \<in> set (map snd (Types i))"
  shows "IsResolved (Heap w' a)"
proof -
  from ResolvePackages_result [OF assms(1)] obtain R where
    g: "growsBy (Reg w) (Reg w') R" and r: "resolvedIn w' R"
    and all: "fst ` set (Packages (Reg w)) \<subseteq> R"
    by blast
  from growsBy_new [OF g assms(2)] assms(3) have old: "map_of (Packages (Reg w)) p = Some i"
    by auto
  then have "(p, i) \<in> set (Packages (Reg w))" by (rule map_of_SomeD)
  then have "p \<in> R" using all by force
  with r obtain j where j: "map_of (Packages (Reg w')) p = Some j"
    and rj: "\<forall>a \<in> set (map snd (Types j)). IsResolved (Heap w' a)"
    unfolding resolvedIn_def by blast
  from j assms(2) have "j = i" by simp
  with rj assms(3) show ?thesis by blast
qed

text \<open>
  C2.  When \<open>ResolvePackages\<close> returns, every type definition in the type table of a
  registered package has \<open>IsResolved = true\<close>.  The resolver changes nothing else of a type
  definition: every type definition is as before or as before with \<open>IsResolved\<close> set, so
  the fields of every struct, the field types among them, are the ones it had before the
  run (a field with no type keeps no type), and every package registered before the run
  keeps its type table and its imports.
\<close>

theorem ResolvePackages_marks_resolved:
  assumes "ResolvePackages pf tf w = Some w'"
  shows "(\<forall>p i a. map_of (Packages (Reg w')) p = Some i \<longrightarrow> a \<in> set (map snd (Types i))
            \<longrightarrow> IsResolved (Heap w' a))
     \<and> (\<forall>a. Heap w' a = Heap w a \<or> Heap w' a = (Heap w a)\<lparr>IsResolved := True\<rparr>)
     \<and> (\<forall>a. Fields (Heap w' a) = Fields (Heap w a))
     \<and> (\<forall>p i. map_of (Packages (Reg w)) p = Some i \<longrightarrow> map_of (Packages (Reg w')) p = Some i)"
proof -
  from ResolvePackages_result [OF assms] obtain R where
    g: "growsBy (Reg w) (Reg w') R" and m: "marks (Heap w) (Heap w')"
    by blast
  from m have "\<forall>a. Heap w' a = Heap w a \<or> Heap w' a = (Heap w a)\<lparr>IsResolved := True\<rparr>"
    by (simp add: marks_def)
  moreover from m have "\<forall>a. Fields (Heap w' a) = Fields (Heap w a)"
    by (simp add: marks_Fields)
  moreover have "\<forall>p i. map_of (Packages (Reg w)) p = Some i \<longrightarrow> map_of (Packages (Reg w')) p = Some i"
    using g growsBy_keeps by blast
  ultimately show ?thesis using ResolvePackages_resolved [OF assms] by blast
qed

lemma eventWorld_eval:
  "Heap eventWorld = (\<lambda>a.
     if a = 0 then \<lparr>Name = ''Event'', Kind = KindStruct,
        Fields = [\<lparr>FieldName = ''At'', FieldType = None, JSONName = '''', Omitempty = False, IsPointer = False\<rparr>],
        ElementType = None, KeyType = None, ValueType = None, Package = ''app'', BasicType = '''',
        IsResolved = False\<rparr>
     else zeroType)"
  "Reg eventWorld = \<lparr>Packages = [(''app'', \<lparr>Types = [(''Event'', 0)], Imports = []\<rparr>)],
                     CurrentPackage = ''app''\<rparr>"
  by (rule ext) (simp_all add: eventWorld_def eval_world SplitN2_def)

lemmas eval_resolve = ResolvePackages_def buildPackageDependencies_def dependenciesOf_def
  resolvePackageTypes_def SetCurrentPackage_def RegisterPackage_def resolveByKind_def
  resolveOpt_def markResolved_def ContainsDot_def Let_def

text \<open>
  The run of the resolver on that package: it sets \<open>IsResolved\<close> on \<open>Event\<close>.
\<close>

lemma eventWorld_run:
  "ResolvePackages (Suc 0) (Suc 0) eventWorld =
     Some (eventWorld\<lparr>Heap := markResolved 0 (Heap eventWorld)\<rparr>)"
  by (simp add: eval_resolve eventWorld_eval)

text \<open>
  For \<open>type Event struct { At time.Time }\<close> with no package \<open>time\<close> collected, the resolver
  returns and marks \<open>Event\<close> resolved, and the type of the field \<open>At\<close> is still nil: no type
  definition is made for it.
\<close>

theorem unresolved_field_stays_nil:
  "resolvedAfter (ResolvePackages 1 1 eventWorld) 0
   \<and> fieldTypesAfter (ResolvePackages 1 1 eventWorld) 0 = [None]"
  by (simp add: eventWorld_run resolvedAfter_def fieldTypesAfter_def markResolved_def eventWorld_eval)

theorem ResolvePackages_marks_resolved_witness:
  "\<exists>w'. ResolvePackages 1 1 eventWorld = Some w' \<and> IsResolved (Heap w' 0)
      \<and> Fields (Heap w' 0) = Fields (Heap eventWorld 0)"
proof -
  obtain w' where r: "ResolvePackages 1 1 eventWorld = Some w'"
    by (simp add: eventWorld_run)
  note t = ResolvePackages_marks_resolved [OF r]
  have "map_of (Packages (Reg eventWorld)) ''app'' = Some \<lparr>Types = [(''Event'', 0)], Imports = []\<rparr>"
    by (simp add: eventWorld_eval)
  with t have "map_of (Packages (Reg w')) ''app'' = Some \<lparr>Types = [(''Event'', 0)], Imports = []\<rparr>"
    by blast
  moreover have "(0::nat) \<in> set (map snd (Types \<lparr>Types = [(''Event'', 0::nat)], Imports = []\<rparr>))"
    by simp
  ultimately have "IsResolved (Heap w' 0)" using t by blast
  moreover from t have "Fields (Heap w' 0) = Fields (Heap eventWorld 0)" by blast
  ultimately show ?thesis using r by simp
qed

subsection \<open>A second run\<close>

lemma below_refl [simp]: "below r r"
  by (simp add: below_def)

lemma below_trans: "below r r' \<Longrightarrow> below r' r'' \<Longrightarrow> below r r''"
  by (simp add: below_def)

lemma growsBy_below: "growsBy r r' X \<Longrightarrow> below r r'"
  unfolding below_def using growsBy_keeps by blast

lemma advances_below: "advances s s' \<Longrightarrow> below (Reg (fst s)) (Reg (fst s'))"
  unfolding advances_def using growsBy_below by blast

lemma resolvePackageTypes_follows:
  assumes ar: "allResolved w1" and run: "resolvePackageTypes tf p wa = Some wa'"
    and bl: "below (Reg wa') (Reg w1)" and fo: "follows w1 c0 wa wb"
  shows "\<exists>wb'. resolvePackageTypes tf p wb = Some wb' \<and> follows w1 c0 wa' wb'"
proof -
  from resolvePackageTypes_result [OF run] obtain i where
    rg: "Reg wa' = SetCurrentPackage (Reg wa) p"
    and i: "map_of (Packages (Reg wa')) p = Some i"
    and fu: "Types i = [] \<or> tf \<noteq> 0"
    by blast
  from bl i have i1: "map_of (Packages (Reg w1)) p = Some i"
    by (simp add: below_def)
  from fo have pk: "Packages (Reg wb) = Packages (Reg w1)" and hp: "Heap wb = Heap w1"
    and na: "NextAddr wb = NextAddr w1"
    by (simp_all add: follows_def)
  from i1 pk have ib: "map_of (Packages (Reg wb)) p = Some i" by simp
  then have sp: "Packages (SetCurrentPackage (Reg wb) p) = Packages (Reg wb)"
    by (simp add: SetCurrentPackage_Packages)
  from ar i1 have "\<forall>a \<in> set (map snd (Types i)). IsResolved (Heap w1 a)"
    unfolding allResolved_def by blast
  with hp have al: "\<forall>a \<in> set (map snd (Types i)). IsResolved (Heap wb a)" by simp
  from fu have "map snd (Types i) = [] \<or> tf \<noteq> 0" by auto
  with al have rt: "resolveTypes tf (map snd (Types i)) (Heap wb) = Some (Heap wb)"
    by (rule resolveTypes_skip)
  have "resolvePackageTypes tf p wb
          = Some (wb\<lparr>Heap := Heap wb, Reg := SetCurrentPackage (Reg wb) p\<rparr>)"
    using sp ib rt by (simp add: resolvePackageTypes_def Let_def)
  moreover have "follows w1 c0 wa' (wb\<lparr>Heap := Heap wb, Reg := SetCurrentPackage (Reg wb) p\<rparr>)"
    using hp na pk sp rg by (simp add: follows_def)
  ultimately show ?thesis by blast
qed

lemma resolveEach_follows:
  assumes adv: "\<forall>p s s'. res p s = Some s' \<longrightarrow> advances s s' \<and> p \<in> snd s'"
    and step: "\<forall>p wa R wa' R' wb. res p (wa, R) = Some (wa', R') \<longrightarrow> below (Reg wa') (Reg w1)
        \<longrightarrow> follows w1 c0 wa wb
        \<longrightarrow> (\<exists>wb'. res p (wb, R) = Some (wb', R') \<and> follows w1 c0 wa' wb')"
  shows "resolveEach res ps (wa, R) = Some (wa', R') \<Longrightarrow> below (Reg wa') (Reg w1)
      \<Longrightarrow> follows w1 c0 wa wb
      \<Longrightarrow> \<exists>wb'. resolveEach res ps (wb, R) = Some (wb', R') \<and> follows w1 c0 wa' wb'"
proof (induction ps arbitrary: wa R wb)
  case Nil
  then show ?case by simp
next
  case (Cons p ps)
  from Cons.prems(1) obtain wm Rm where
    s1: "res p (wa, R) = Some (wm, Rm)" and s2: "resolveEach res ps (wm, Rm) = Some (wa', R')"
    by (auto split: option.splits)
  from resolveEach_advances [OF adv s2] have "advances (wm, Rm) (wa', R')" by blast
  from advances_below [OF this] have "below (Reg wm) (Reg wa')" by simp
  with Cons.prems(2) have bm: "below (Reg wm) (Reg w1)" by (blast intro: below_trans)
  from step s1 bm Cons.prems(3) obtain wbm where
    t1: "res p (wb, R) = Some (wbm, Rm)" and fm: "follows w1 c0 wm wbm"
    by blast
  from Cons.IH [OF s2 Cons.prems(2) fm] obtain wb' where
    t2: "resolveEach res ps (wbm, Rm) = Some (wb', R')" and f': "follows w1 c0 wa' wb'"
    by blast
  from t1 t2 f' show ?case by simp
qed

lemma resolvePackageDependencies_follows:
  assumes ar: "allResolved w1"
  shows "\<forall>p wa R wa' R' wb.
      resolvePackageDependencies pf tf d p (wa, R) = Some (wa', R') \<longrightarrow> below (Reg wa') (Reg w1)
        \<longrightarrow> follows w1 c0 wa wb
        \<longrightarrow> (\<exists>wb'. resolvePackageDependencies pf tf d p (wb, R) = Some (wb', R')
               \<and> follows w1 c0 wa' wb')"
proof (induction pf)
  case 0
  show ?case by simp
next
  case (Suc pf)
  have adv: "\<forall>p s s'. resolvePackageDependencies pf tf d p s = Some s'
      \<longrightarrow> advances s s' \<and> p \<in> snd s'"
    using resolvePackageDependencies_advances by blast
  show ?case
  proof (intro allI impI)
    fix p wa R wa' R' wb
    assume run: "resolvePackageDependencies (Suc pf) tf d p (wa, R) = Some (wa', R')"
      and bl: "below (Reg wa') (Reg w1)" and fo: "follows w1 c0 wa wb"
    show "\<exists>wb'. resolvePackageDependencies (Suc pf) tf d p (wb, R) = Some (wb', R')
               \<and> follows w1 c0 wa' wb'"
    proof (cases "p \<in> R")
      case True
      with run have "wa' = wa" "R' = R" by simp_all
      with True fo show ?thesis by simp
    next
      case False
      with run obtain wm Rm where
        e: "resolveEach (resolvePackageDependencies pf tf d) (dependenciesOf d p) (wa, R)
              = Some (wm, Rm)"
        and t: "resolvePackageTypes tf p wm = Some wa'" and R': "R' = insert p Rm"
        by (auto split: option.splits)
      from resolvePackageTypes_result [OF t] have "Reg wa' = SetCurrentPackage (Reg wm) p"
        by blast
      then have "growsBy (Reg wm) (Reg wa') {p}"
        by (simp add: growsBy_SetCurrentPackage)
      then have "below (Reg wm) (Reg wa')" by (rule growsBy_below)
      with bl have bm: "below (Reg wm) (Reg w1)" by (blast intro: below_trans)
      from resolveEach_follows [OF adv Suc.IH e bm fo] obtain wbm where
        eb: "resolveEach (resolvePackageDependencies pf tf d) (dependenciesOf d p) (wb, R)
              = Some (wbm, Rm)"
        and fm: "follows w1 c0 wm wbm"
        by blast
      from resolvePackageTypes_follows [OF ar t bl fm] obtain wb' where
        tb: "resolvePackageTypes tf p wbm = Some wb'" and f': "follows w1 c0 wa' wb'"
        by blast
      from False eb tb R' f' show ?thesis by simp
    qed
  qed
qed

lemma dependenciesOf_build:
  "dependenciesOf (buildPackageDependencies r) q =
     (case map_of (Packages r) q of
        None \<Rightarrow> []
      | Some i \<Rightarrow> filter ContainsDot (map snd (Imports i)))"
  by (simp add: dependenciesOf_def buildPackageDependencies_def map_of_map split: option.splits)

lemma dependenciesOf_growsBy:
  assumes "growsBy r r' X"
  shows "dependenciesOf (buildPackageDependencies r') q
           = dependenciesOf (buildPackageDependencies r) q"
proof (cases "map_of (Packages r) q")
  case (Some i)
  with growsBy_keeps [OF assms] have "map_of (Packages r') q = Some i" by blast
  with Some show ?thesis by (simp add: dependenciesOf_build)
next
  case None
  show ?thesis
  proof (cases "map_of (Packages r') q")
    case n: None
    with None show ?thesis by (simp add: dependenciesOf_build)
  next
    case s: (Some i)
    from growsBy_new [OF assms s] None have "i = \<lparr>Types = [], Imports = []\<rparr>" by simp
    with s None show ?thesis by (simp add: dependenciesOf_build)
  qed
qed

lemma resolvePackageDependencies_cong:
  assumes "dependenciesOf d = dependenciesOf d'"
  shows "resolvePackageDependencies pf tf d = resolvePackageDependencies pf tf d'"
proof (induction pf)
  case 0
  show ?case by simp
next
  case (Suc pf)
  show ?case
    by (simp only: resolvePackageDependencies.simps) (subst Suc, subst assms, rule refl)
qed

lemma resolveEach_append:
  "resolveEach res (ps @ qs) s =
     (case resolveEach res ps s of None \<Rightarrow> None | Some s' \<Rightarrow> resolveEach res qs s')"
  by (induction ps arbitrary: s) (simp_all split: option.splits)

lemma resolveEach_skip:
  "set qs \<subseteq> R \<Longrightarrow> qs = [] \<or> pf \<noteq> 0
     \<Longrightarrow> resolveEach (resolvePackageDependencies pf tf d) qs (w, R) = Some (w, R)"
  by (induction qs) (cases pf; simp)+

lemma resolveEach_fuel:
  "resolveEach (resolvePackageDependencies pf tf d) ps s = Some s' \<Longrightarrow> ps = [] \<or> pf \<noteq> 0"
  by (cases ps; cases pf) simp_all

text \<open>
  A run of the resolver that starts from the result of a run returns, with the same
  package fuel and type fuel, and it returns the world it started from.  The packages are
  visited in the order of the registry's list in both runs.
\<close>

lemma ResolvePackages_again:
  assumes run: "ResolvePackages pf tf w = Some w1"
  shows "ResolvePackages pf tf w1 = Some w1"
proof -
  let ?d = "buildPackageDependencies (Reg w)"
  let ?res = "resolvePackageDependencies pf tf ?d"
  from ResolvePackages_result [OF run] obtain R where
    e: "resolveEach ?res (map fst (Packages (Reg w))) (w, {}) = Some (w1, R)"
    and g: "growsBy (Reg w) (Reg w1) R"
    by blast
  have ar: "allResolved w1"
    unfolding allResolved_def using ResolvePackages_resolved [OF run] by blast
  have f0: "follows w1 (CurrentPackage (Reg w)) w w1"
    by (simp add: follows_def)
  have adv: "\<forall>p s s'. ?res p s = Some s' \<longrightarrow> advances s s' \<and> p \<in> snd s'"
    using resolvePackageDependencies_advances by blast
  have b1: "below (Reg w1) (Reg w1)" by simp
  from resolveEach_follows [OF adv resolvePackageDependencies_follows [OF ar] e b1 f0]
  obtain w2 where
    e2: "resolveEach ?res (map fst (Packages (Reg w))) (w1, {}) = Some (w2, R)"
    and f2: "follows w1 (CurrentPackage (Reg w)) w1 w2"
    by blast
  from f2 have "Reg w2 = Reg w1"
    by (auto simp add: follows_def intro: TypeRegistry.equality)
  with f2 have w2: "w2 = w1"
    by (simp add: follows_def world.equality)
  from g obtain ext where px: "Packages (Reg w1) = Packages (Reg w) @ ext"
    and ex: "\<forall>e \<in> set ext. fst e \<in> R"
    unfolding growsBy_def by blast
  have fu: "map fst ext = [] \<or> pf \<noteq> 0"
  proof (cases pf)
    case 0
    from resolveEach_fuel [OF e] 0 have "Packages (Reg w) = []" by simp
    with e have "R = {}" by simp
    with ex show ?thesis by (cases ext) auto
  next
    case (Suc n)
    then show ?thesis by simp
  qed
  from ex have "set (map fst ext) \<subseteq> R" by auto
  from resolveEach_skip [OF this fu]
  have sk: "resolveEach ?res (map fst ext) (w1, R) = Some (w1, R)" .
  have "resolvePackageDependencies pf tf (buildPackageDependencies (Reg w1)) = ?res"
    by (rule resolvePackageDependencies_cong) (rule ext, simp add: dependenciesOf_growsBy [OF g])
  then show ?thesis
    using e2 w2 sk by (simp add: ResolvePackages_def px resolveEach_append)
qed

lemma GenerateSchema_nil_keeps:
  "GenerateSchema n h g t = Some (None, g') \<Longrightarrow> g' = g"
proof (induction n arbitrary: g t g')
  case 0
  then show ?case by simp
next
  case (Suc n)
  show ?case
  proof (cases t)
    case None
    with Suc.prems show ?thesis by simp
  next
    case (Some a)
    show ?thesis
    proof (cases "g (schemaKey (h a))")
      case s: (Some schema)
      with Some Suc.prems show ?thesis by simp
    next
      case n: None
      with Some Suc.prems obtain r0 where
        k: "schemaByKind (GenerateSchema n h) h g a = Some r0"
        and st: "storeSchema (schemaKey (h a)) r0 = (None, g')"
        by auto
      from st have r0: "r0 = (None, g')"
        by (cases r0; cases "fst r0") (auto simp add: storeSchema_def)
      show ?thesis
      proof (cases "Kind (h a)")
        case KindPointer
        show ?thesis
        proof (cases "ElementType (h a)")
          case None
          with k r0 KindPointer show ?thesis by (simp add: schemaByKind_def)
        next
          case e: (Some e)
          with k r0 KindPointer have "GenerateSchema n h g (Some e) = Some (None, g')"
            by (simp add: schemaByKind_def)
          then show ?thesis by (rule Suc.IH)
        qed
      qed (use k r0 in \<open>auto simp add: schemaByKind_def\<close>)
    qed
  qed
qed

text \<open>
  A second call of \<open>GenerateSchema\<close> on the same type, with the \<open>Schemas\<close> map the first call
  left, returns the same schema and leaves the map as it is.
\<close>

lemma GenerateSchema_again:
  assumes "GenerateSchema n h g t = Some (r, g')"
  shows "GenerateSchema n h g' t = Some (r, g')"
proof (cases r)
  case None
  with assms GenerateSchema_nil_keeps have "g' = g" by blast
  with assms show ?thesis by simp
next
  case (Some s)
  show ?thesis
  proof (cases n)
    case 0
    with assms show ?thesis by simp
  next
    case (Suc m)
    show ?thesis
    proof (cases t)
      case None
      with assms Suc Some show ?thesis by simp
    next
      case a: (Some a)
      show ?thesis
      proof (cases "g (schemaKey (h a))")
        case s0: (Some s0)
        with assms Suc a have "g' = g" and "r = Some s0" by simp_all
        with Suc a s0 show ?thesis by simp
      next
        case None
        with assms Suc a obtain r0 where
          st: "storeSchema (schemaKey (h a)) r0 = (Some s, g')"
          using Some by auto
        then have "g' (schemaKey (h a)) = Some s"
          by (cases r0; cases "fst r0") (auto simp add: storeSchema_def)
        with Suc a Some show ?thesis by simp
      qed
    qed
  qed
qed

lemma userWorld_reg:
  "Reg userWorld = \<lparr>Packages = [(''app'', \<lparr>Types = [(''User'', 0)], Imports = []\<rparr>)],
                    CurrentPackage = ''app''\<rparr>"
  by (simp add: userWorld_def eval_world)

lemma userWorld_run:
  "ResolvePackages (Suc 0) (Suc (Suc 0)) userWorld =
     Some (userWorld\<lparr>Heap := markResolved 0 (Heap userWorld)\<rparr>)"
  by (simp add: eval_resolve userWorld_reg userWorld_heap basicTypeDefinition_def)

text \<open>
  C8.  Resolution and schema generation are idempotent.  When \<open>ResolvePackages\<close> has
  returned the world \<open>w1\<close>, a second run on \<open>w1\<close> returns \<open>w1\<close>: no type definition, no
  package and no import changes.  When \<open>GenerateSchema\<close> has returned a schema for a type
  and left the \<open>Schemas\<close> map \<open>g1\<close>, a second call for the same type returns the same schema
  (a required list with the same entries among the rest) and leaves \<open>g1\<close> unchanged.
\<close>

theorem second_run_changes_nothing:
  assumes "ResolvePackages pf tf w = Some w1"
    and "GenerateSchema n (Heap w1) g t = Some (r, g1)"
  shows "ResolvePackages pf tf w1 = Some w1
     \<and> GenerateSchema n (Heap w1) g1 t = Some (r, g1)"
  using assms by (simp add: ResolvePackages_again GenerateSchema_again)

theorem second_run_changes_nothing_witness:
  "\<exists>w1 r g1. ResolvePackages 1 2 userWorld = Some w1 \<and> ResolvePackages 1 2 w1 = Some w1
     \<and> GenerateSchema 2 (Heap w1) Map.empty (Some 0) = Some (r, g1)
     \<and> GenerateSchema 2 (Heap w1) g1 (Some 0) = Some (r, g1)
     \<and> requiredOf (Some (r, g1)) = [''id'', ''name'']"
proof -
  define w1 where "w1 = userWorld\<lparr>Heap := markResolved 0 (Heap userWorld)\<rparr>"
  have run: "ResolvePackages 1 2 userWorld = Some w1"
    by (simp add: userWorld_run w1_def numeral_2_eq_2)
  have h1: "Heap w1 = markResolved 0 (Heap userWorld)"
    by (simp add: w1_def)
  have rq: "requiredOf (GenerateSchema 2 (Heap w1) Map.empty (Some 0)) = [''id'', ''name'']"
    by (simp add: h1 markResolved_def numeral_2_eq_2 userWorld_heap schemaByKind_def
        generateStructSchema_def storeSchema_def schemaKey_def basicTypeDefinition_def
        generateBasicSchema_def requiredOf_def addProperty_def wireName_def propertyOf_def
        emptyObject_def)
  then obtain r g1 where gs: "GenerateSchema 2 (Heap w1) Map.empty (Some 0) = Some (r, g1)"
    by (cases "GenerateSchema 2 (Heap w1) Map.empty (Some 0)") (auto simp add: requiredOf_def)
  from second_run_changes_nothing [OF run gs]
  have "ResolvePackages 1 2 w1 = Some w1"
    and "GenerateSchema 2 (Heap w1) g1 (Some 0) = Some (r, g1)"
    by simp_all
  with run gs rq show ?thesis by auto
qed

subsection \<open>Pointer types that share a key\<close>

text \<open>
  C7.  The schema generated for a pointer type is not always the schema of its element.
  In package \<open>app\<close>, \<^verbatim>\<open>type Holder struct { A *User; B *models.User }\<close> has two pointer
  fields; \<open>ResolveType\<close> names both pointer types \<open>*User\<close> and puts both in package \<open>app\<close>,
  so they have the same key in \<open>Schemas\<close>.  One \<open>GenerateSchema\<close> call for \<open>Holder\<close> on a new
  generator stores the schema of \<open>app.User\<close> under that key for field \<open>A\<close> and returns it
  again for field \<open>B\<close>: the property \<open>B\<close>, a pointer to \<open>models.User\<close>, requires \<open>ID\<close>, while
  the schema of \<open>models.User\<close> itself requires \<open>Name\<close>, on a new generator and on the
  generator that the call for \<open>Holder\<close> left.
\<close>

theorem pointer_schema_of_other_type:
  "Kind (Heap holderWorld 6) = KindPointer \<and> ElementType (Heap holderWorld 6) = Some 0
   \<and> requiredOfProperty (GenerateSchema 4 (Heap holderWorld) Map.empty (Some 4)) ''B'' = Some [''ID'']
   \<and> requiredOfProperty (GenerateSchema 4 (Heap holderWorld) Map.empty (Some 4)) ''A'' = Some [''ID'']
   \<and> requiredOf (GenerateSchema 4 (Heap holderWorld) Map.empty (Some 0)) = [''Name'']
   \<and> requiredOf (thenGenerateSchema 4 (Heap holderWorld) 6
         (GenerateSchema 4 (Heap holderWorld) Map.empty (Some 4))) = [''ID'']
   \<and> requiredOf (thenGenerateSchema 4 (Heap holderWorld) 0
         (GenerateSchema 4 (Heap holderWorld) Map.empty (Some 4))) = [''Name'']"
  by (simp add: eval_nat_numeral holderWorld_heap eval_schema requiredOfProperty_def)

end
